theory Spec2Isabelle
  imports Main "HOL-Library.Word" "HOL-Library.Multiset"
begin

section \<open>Data model (memory\_manager.h, memory\_manager.cpp)\<close>

text \<open>
  The target is an LP64 platform: \<open>std::size_t\<close>, \<open>std::uint64_t\<close> and pointers are
  64-bit unsigned words, whose arithmetic wraps around.
\<close>

type_synonym size_t = "64 word"
type_synonym uint64 = "64 word"
type_synonym addr = "64 word"

text \<open>\<open>struct MemoryDescriptor\<close>; the field \<open>size\<close> is written \<open>size_d\<close>.\<close>

record MemoryDescriptor =
  size_d :: size_t
  minimum :: size_t
  maximum :: size_t
  excess_allowed :: bool

text \<open>\<open>struct Statistics\<close>; the field \<open>size\<close> is written \<open>size_s\<close>.\<close>

record Statistics =
  size_s :: size_t
  allocations :: uint64
  deallocations :: uint64
  corruption_count :: uint64
  max_outstanding :: uint64
  outstanding :: uint64
  unfulfilled :: uint64

text \<open>
  \<open>struct MemoryHeader\<close> is three 8-byte fields (owner at offset 0, index at offset 8,
  marker at offset 16) and \<open>struct MemoryTrailer\<close> one 8-byte field.
\<close>

definition sizeof_MemoryHeader :: size_t where
  "sizeof_MemoryHeader = 24"

definition sizeof_MemoryTrailer :: size_t where
  "sizeof_MemoryTrailer = 8"

definition Header_Marker_Value :: uint64 where
  "Header_Marker_Value = 0xC1F03D8B4A725378"

definition Trailer_Marker_Value :: uint64 where
  "Trailer_Marker_Value = 0x215F8A1A6853658B"

text \<open>The lines the engine writes to its logger at warning and error level, and at
  info level during construction. (\<open>Error_Invalid_Pointer\<close> is the line of the pointer test
  of \<open>Free\<close>.)\<close>

datatype log_line =
    Info_Initializing
  | Warning_Invalid_Maximum size_t
  | Info_Descriptor size_t size_t
  | Error_Invalid_Pointer
  | Error_Not_Owner
  | Error_Bad_Descriptor
  | Error_Heap_Failure

text \<open>
  What leaves a function other than by \<open>return\<close>: the two exceptions of the C++ runtime
  that can arise here, and two kinds of undefined behaviour: the access \<open>v[i]\<close> to a
  \<open>std::vector\<close> with \<open>i \<ge> v.size()\<close>, and pointer arithmetic that wraps around the
  address space or arrives at the null pointer.
\<close>

datatype fault = Bad_Alloc | Bad_Array_New_Length | Out_Of_Range | Invalid_Pointer

text \<open>
  The system allocator behind \<open>new std::uint8_t[n]\<close> is outside the program. It is a
  parameter: \<open>sys k n\<close> is what the \<open>k\<close>-th call of \<open>operator new[]\<close> does when asked
  for \<open>n\<close> bytes: \<open>Some a\<close> returns the address \<open>a\<close>, \<open>None\<close> throws
  \<open>std::bad_alloc\<close>. (The throwing \<open>operator new[]\<close> of the standard never returns a
  null pointer; \<open>Some 0\<close> stands for a replaced allocator that does.)
\<close>

type_synonym sys_alloc = "nat \<Rightarrow> size_t \<Rightarrow> addr option"

text \<open>
  \<open>class MemoryManager\<close>. The member \<open>allocations\<close> (the vector of free pools, one per
  class) is written \<open>allocations_pool\<close>, since \<open>Statistics\<close> has a field of the same
  name. \<open>this_ptr\<close> is the address of the object. The remaining fields make the
  effects explicit: \<open>memory a\<close> is the 64-bit value a load from address \<open>a\<close> yields,
  \<open>heap_deleted\<close> lists the blocks given to \<open>delete[]\<close>, \<open>new_calls\<close> counts the calls of
  \<open>operator new[]\<close>, and \<open>logged\<close> is the logger's output.
\<close>

record MemoryManager =
  profile :: "MemoryDescriptor list"
  log_statistics :: bool
  allocations_pool :: "addr list list"
  statistics :: "Statistics list"
  this_ptr :: addr
  memory :: "addr \<Rightarrow> uint64"
  heap_deleted :: "addr list"
  new_calls :: nat
  logged :: "log_line list"

section \<open>The engine (memory\_manager.cpp)\<close>

subsection \<open>\<open>MemoryManager::PerformAllocation\<close>\<close>

definition PerformAllocation ::
  "sys_alloc \<Rightarrow> nat \<Rightarrow> MemoryManager \<Rightarrow> (fault + bool) \<times> MemoryManager" where
  "PerformAllocation sys index s =
     (let d = profile s ! index in
      if maximum d \<noteq> 0 \<and> \<not> excess_allowed d \<and>
         maximum d \<le> word_of_nat (length (allocations_pool s ! index)) +
                       outstanding (statistics s ! index)
      then (Inr False, s)
      else
        (let s1 = s\<lparr>new_calls := new_calls s + 1\<rparr> in
         case sys (new_calls s) (sizeof_MemoryHeader + size_d d + sizeof_MemoryTrailer) of
           None \<Rightarrow> (Inl Bad_Alloc, s1)
         | Some block \<Rightarrow>
             if block = 0
             then (Inr False, s1\<lparr>logged := logged s1 @ [Error_Heap_Failure]\<rparr>)
             else (Inr True,
                   s1\<lparr>memory := (memory s1)
                          (block := this_ptr s,
                           block + 8 := word_of_nat index,
                           block + 16 := Header_Marker_Value,
                           block + sizeof_MemoryHeader + size_d d := Trailer_Marker_Value),
                      allocations_pool := (allocations_pool s)
                          [index := allocations_pool s ! index @ [block]]\<rparr>)))"

lemma profile_PerformAllocation:
  "profile (snd (PerformAllocation sys index s)) = profile s"
  by (simp add: PerformAllocation_def Let_def split: option.splits)

lemma profile_grow:
  "(x, y) = (if c then PerformAllocation sys index s else (Inr True, s)) \<Longrightarrow>
   profile y = profile s"
  using profile_PerformAllocation [of sys index s]
  by (auto split: if_splits dest: arg_cong [where f = snd])

subsection \<open>\<open>MemoryManager::Allocate\<close>\<close>

text \<open>
  The \<open>for\<close> loop of \<open>Allocate\<close>, from \<open>index\<close> on. The condition
  \<open>allocations[index].empty() && !PerformAllocation(index)\<close> calls \<open>PerformAllocation\<close>
  only on an empty pool; on a pool that is not empty the case distinction below sees
  \<open>Inr True\<close>, as after a successful growth.
  The null pointer is the address 0.
\<close>

function Allocate_loop ::
  "sys_alloc \<Rightarrow> size_t \<Rightarrow> nat \<Rightarrow> MemoryManager \<Rightarrow> (fault + addr) \<times> MemoryManager" where
  "Allocate_loop sys sz index s =
     (if index < length (profile s) then
        if size_d (profile s ! index) < sz then Allocate_loop sys sz (index + 1) s
        else
          (case (if allocations_pool s ! index = [] then PerformAllocation sys index s
                 else (Inr True, s)) of
             (Inl e, s1) \<Rightarrow> (Inl e, s1)
           | (Inr False, s1) \<Rightarrow>
               Allocate_loop sys sz (index + 1)
                 (s1\<lparr>statistics := (statistics s1)
                       [index := (statistics s1 ! index)
                          \<lparr>unfulfilled := unfulfilled (statistics s1 ! index) + 1\<rparr>]\<rparr>)
           | (Inr True, s1) \<Rightarrow>
               if allocations_pool s1 ! index \<noteq> [] then
                 (let st = statistics s1 ! index;
                      st1 = st\<lparr>allocations := allocations st + 1\<rparr>;
                      st2 = st1\<lparr>outstanding := outstanding st1 + 1\<rparr>;
                      st3 = st2\<lparr>max_outstanding :=
                                   max (outstanding st2) (max_outstanding st2)\<rparr>;
                      block = last (allocations_pool s1 ! index)
                  in (Inr (block + sizeof_MemoryHeader),
                      s1\<lparr>statistics := (statistics s1)[index := st3],
                         allocations_pool := (allocations_pool s1)
                           [index := butlast (allocations_pool s1 ! index)]\<rparr>))
               else Allocate_loop sys sz (index + 1) s1)
      else (Inr 0, s))"
  by pat_completeness auto
termination
proof (relation "measure (\<lambda>(sys, sz, index, s). length (profile s) - index)", goal_cases)
  case 1
  show ?case by simp
next
  case (2 sys sz index s)
  then show ?case by simp
next
  case (3 sys sz index s x y b)
  from 3(3) have "profile y = profile s" by (rule profile_grow)
  with 3(1) show ?case by simp
next
  case (4 sys sz index s x y b)
  from 4(3) have "profile y = profile s" by (rule profile_grow)
  with 4(1) show ?case by simp
qed

declare Allocate_loop.simps [simp del]

definition Allocate ::
  "sys_alloc \<Rightarrow> size_t \<Rightarrow> MemoryManager \<Rightarrow> (fault + addr) \<times> MemoryManager" where
  "Allocate sys sz s = Allocate_loop sys sz 0 s"

subsection \<open>\<open>MemoryManager::Free\<close>\<close>

text \<open>
  \<open>block\<close> is computed by the pointer subtraction \<open>p - sizeof(MemoryHeader)\<close>, and the
  source then tests \<open>block == nullptr || block > p\<close>. In C++ a pointer subtraction that
  wraps around or arrives at the null pointer is undefined, so that test can hold only
  after undefined behaviour, and a compiler may remove it together with its branch (the
  error line and \<open>return false\<close>). The model therefore returns \<open>Invalid_Pointer\<close>
  exactly where the subtraction, done on 64-bit words, wraps or gives 0, that is for
  \<open>p \<le> 24\<close>. The index check of the source is skipped on an empty profile, and
  \<open>profile[header->index]\<close> is then an access outside the vector: the model returns
  \<open>Out_Of_Range\<close> wherever the index is not below \<open>profile.size()\<close>.
\<close>

definition Free :: "addr \<Rightarrow> MemoryManager \<Rightarrow> (fault + bool) \<times> MemoryManager" where
  "Free p s =
     (let block = p - sizeof_MemoryHeader;
          header_memory_manager = memory s block;
          header_index = unat (memory s (block + 8));
          header_marker = memory s (block + 16)
      in
      if block = 0 \<or> p < block
      then (Inl Invalid_Pointer, s)
      else if header_memory_manager \<noteq> this_ptr s
      then (Inr False, s\<lparr>logged := logged s @ [Error_Not_Owner]\<rparr>)
      else if profile s \<noteq> [] \<and> length (profile s) - 1 < header_index
      then (Inr True, s\<lparr>logged := logged s @ [Error_Bad_Descriptor],
                         heap_deleted := heap_deleted s @ [block]\<rparr>)
      else if \<not> header_index < length (profile s)
      then (Inl Out_Of_Range, s)
      else
        (let d = profile s ! header_index;
             trailer_marker = memory s (block + sizeof_MemoryHeader + size_d d);
             bad_block = (header_marker \<noteq> Header_Marker_Value \<or>
                          trailer_marker \<noteq> Trailer_Marker_Value);
             st = statistics s ! header_index;
             st1 = st\<lparr>deallocations := deallocations st + 1\<rparr>;
             st2 = (if 0 < outstanding st1
                    then st1\<lparr>outstanding := outstanding st1 - 1\<rparr> else st1)
         in
         if bad_block
         then (Inr True,
               s\<lparr>statistics := (statistics s)
                     [header_index := st2\<lparr>corruption_count := corruption_count st2 + 1\<rparr>],
                  heap_deleted := heap_deleted s @ [block]\<rparr>)
         else if maximum d = 0 \<or>
                 length (allocations_pool s ! header_index) < unat (maximum d)
         then (Inr True,
               s\<lparr>statistics := (statistics s)[header_index := st2],
                  allocations_pool := (allocations_pool s)
                     [header_index := allocations_pool s ! header_index @ [block]]\<rparr>)
         else (Inr True,
               s\<lparr>statistics := (statistics s)[header_index := st2],
                  heap_deleted := heap_deleted s @ [block]\<rparr>)))"

subsection \<open>\<open>MemoryManager::GetStatistics\<close>\<close>

definition GetStatistics :: "MemoryManager \<Rightarrow> Statistics list" where
  "GetStatistics s = statistics s"

subsection \<open>The constructor \<open>MemoryManager::MemoryManager\<close>\<close>

text \<open>The comparison the constructor hands to \<open>std::sort\<close>.\<close>

definition descriptor_less :: "MemoryDescriptor \<Rightarrow> MemoryDescriptor \<Rightarrow> bool" where
  "descriptor_less a b = (size_d a < size_d b)"

text \<open>
  \<open>std::sort\<close> belongs to the C++ library, not to this program, and is a parameter
  \<open>srt\<close> of the constructor. What the C++ standard promises of it: the result is a
  permutation of the input, and no element is less than an element before it. The
  order of equivalent elements is not promised.
\<close>

type_synonym std_sort =
  "(MemoryDescriptor \<Rightarrow> MemoryDescriptor \<Rightarrow> bool) \<Rightarrow> MemoryDescriptor list \<Rightarrow> MemoryDescriptor list"

definition std_sort_contract :: "std_sort \<Rightarrow> bool" where
  "std_sort_contract srt =
     (\<forall>xs. mset (srt descriptor_less xs) = mset xs \<and>
           sorted_wrt (\<lambda>a b. \<not> descriptor_less b a) (srt descriptor_less xs))"

text \<open>The inner loop: \<open>n\<close> more calls of \<open>PerformAllocation(index)\<close>, results ignored.\<close>

fun reserve_minimum ::
  "sys_alloc \<Rightarrow> nat \<Rightarrow> nat \<Rightarrow> MemoryManager \<Rightarrow> (fault + unit) \<times> MemoryManager" where
  "reserve_minimum sys index 0 s = (Inr (), s)"
| "reserve_minimum sys index (Suc n) s =
     (case PerformAllocation sys index s of
        (Inl e, s1) \<Rightarrow> (Inl e, s1)
      | (Inr b, s1) \<Rightarrow> reserve_minimum sys index n s1)"

text \<open>The body of the outer loop up to the inner loop: the repair of \<open>maximum\<close>, the new
  \<open>Statistics\<close> entry and the new empty pool.\<close>

definition init_class :: "nat \<Rightarrow> MemoryManager \<Rightarrow> MemoryManager" where
  "init_class index s =
     (let d = profile s ! index;
          s1 = (if maximum d \<noteq> 0 \<and> maximum d < minimum d
                then s\<lparr>logged := logged s @ [Warning_Invalid_Maximum (size_d d)],
                       profile := (profile s)[index := d\<lparr>maximum := minimum d\<rparr>]\<rparr>
                else s);
          d1 = profile s1 ! index;
          s2 = s1\<lparr>statistics := statistics s1 @
                  [\<lparr>size_s = size_d d1, allocations = 0, deallocations = 0,
                    corruption_count = 0, max_outstanding = 0, outstanding = 0,
                    unfulfilled = 0\<rparr>]\<rparr>;
          s3 = s2\<lparr>allocations_pool := allocations_pool s2 @ [[]]\<rparr>
      in s3\<lparr>logged := logged s3 @ [Info_Descriptor (size_d d1) (minimum d1)]\<rparr>)"

lemma length_profile_init_class: "length (profile (init_class index s)) = length (profile s)"
  by (simp add: init_class_def Let_def)

lemma profile_reserve_minimum:
  "profile (snd (reserve_minimum sys index n s)) = profile s"
proof (induction n arbitrary: s)
  case 0
  show ?case by simp
next
  case (Suc n)
  obtain r s1 where pa: "PerformAllocation sys index s = (r, s1)"
    by (cases "PerformAllocation sys index s")
  then have "profile s1 = profile s"
    using profile_PerformAllocation [of sys index s] by simp
  with pa Suc show ?case by (cases r) simp_all
qed

function MemoryManager_classes ::
  "sys_alloc \<Rightarrow> nat \<Rightarrow> MemoryManager \<Rightarrow> (fault + unit) \<times> MemoryManager" where
  "MemoryManager_classes sys index s =
     (if index < length (profile s) then
        (case reserve_minimum sys index
                (unat (minimum (profile (init_class index s) ! index))) (init_class index s) of
           (Inl e, s1) \<Rightarrow> (Inl e, s1)
         | (Inr u, s1) \<Rightarrow> MemoryManager_classes sys (index + 1) s1)
      else (Inr (), s))"
  by pat_completeness auto
termination
proof (relation "measure (\<lambda>(sys, index, s). length (profile s) - index)", goal_cases)
  case 1
  show ?case by simp
next
  case (2 sys index s x y u)
  have "profile y = profile (init_class index s)"
    using profile_reserve_minimum
            [of sys index "unat (minimum (profile (init_class index s) ! index))"
                "init_class index s"] 2(2) [symmetric]
    by simp
  with 2(1) show ?case by (simp add: length_profile_init_class)
qed

declare MemoryManager_classes.simps [simp del]

definition MemoryManager_ctor ::
  "std_sort \<Rightarrow> sys_alloc \<Rightarrow> addr \<Rightarrow> (addr \<Rightarrow> uint64) \<Rightarrow> MemoryDescriptor list \<Rightarrow> bool \<Rightarrow>
   fault + MemoryManager" where
  "MemoryManager_ctor srt sys this mem prof log_stats =
     (case MemoryManager_classes sys 0
             \<lparr>profile = srt descriptor_less prof, log_statistics = log_stats,
              allocations_pool = [], statistics = [], this_ptr = this, memory = mem,
              heap_deleted = [], new_calls = 0, logged = [Info_Initializing]\<rparr> of
        (Inl e, s) \<Rightarrow> Inl e
      | (Inr u, s) \<Rightarrow> Inr s)"

section \<open>The allocator adapter (memory\_allocator.h)\<close>

text \<open>
  \<open>MemoryAllocator<T>::allocate\<close>, with \<open>sizeof(T)\<close> as the parameter \<open>sizeof_T\<close>
  (at least 1 for every C++ type); \<open>std::numeric_limits<std::size_t>::max()\<close> is \<open>- 1\<close>.
\<close>

definition MemoryAllocator_allocate ::
  "sys_alloc \<Rightarrow> size_t \<Rightarrow> size_t \<Rightarrow> MemoryManager \<Rightarrow> (fault + addr) \<times> MemoryManager" where
  "MemoryAllocator_allocate sys sizeof_T n s =
     (if (- 1) div sizeof_T < n then (Inl Bad_Array_New_Length, s)
      else Allocate sys (sizeof_T * n) s)"

definition MemoryAllocator_deallocate :: "addr \<Rightarrow> size_t \<Rightarrow> MemoryManager \<Rightarrow> MemoryManager" where
  "MemoryAllocator_deallocate p n s = (if p = 0 then s else snd (Free p s))"

section \<open>Notions used in the statements\<close>

text \<open>\<open>PerformAllocation\<close> refuses by policy: it returns \<open>false\<close> without having called
  \<open>operator new[]\<close>.\<close>

definition growth_refused :: "sys_alloc \<Rightarrow> nat \<Rightarrow> MemoryManager \<Rightarrow> bool" where
  "growth_refused sys index s =
     (fst (PerformAllocation sys index s) = Inr False \<and>
      new_calls (snd (PerformAllocation sys index s)) = new_calls s)"

text \<open>What \<open>Allocate\<close> does once the pool of class \<open>index\<close> holds a block: the
  statistics are updated, the last block leaves the pool, and the address after its
  header is returned.\<close>

definition take_block :: "nat \<Rightarrow> MemoryManager \<Rightarrow> (fault + addr) \<times> MemoryManager" where
  "take_block index s1 =
     (Inr (last (allocations_pool s1 ! index) + sizeof_MemoryHeader),
      s1\<lparr>statistics := (statistics s1)
            [index := (statistics s1 ! index)
               \<lparr>allocations := allocations (statistics s1 ! index) + 1,
                outstanding := outstanding (statistics s1 ! index) + 1,
                max_outstanding := max (outstanding (statistics s1 ! index) + 1)
                                       (max_outstanding (statistics s1 ! index))\<rparr>],
         allocations_pool := (allocations_pool s1)
            [index := butlast (allocations_pool s1 ! index)]\<rparr>)"

text \<open>What \<open>Free\<close> does to the statistics of the class of a block whose index it
  trusts.\<close>

definition freed_statistics :: "Statistics \<Rightarrow> Statistics" where
  "freed_statistics st =
     (let st1 = st\<lparr>deallocations := deallocations st + 1\<rparr>
      in if 0 < outstanding st1 then st1\<lparr>outstanding := outstanding st1 - 1\<rparr> else st1)"

text \<open>A sequence of \<open>Allocate\<close> calls on one engine, with the result of each call.\<close>

fun Allocate_all ::
  "sys_alloc \<Rightarrow> size_t list \<Rightarrow> MemoryManager \<Rightarrow> (fault + addr) list \<times> MemoryManager" where
  "Allocate_all sys [] s = ([], s)"
| "Allocate_all sys (z # zs) s =
     (case Allocate sys z s of
        (r, s1) \<Rightarrow> (case Allocate_all sys zs s1 of (rs, s2) \<Rightarrow> (r # rs, s2)))"

text \<open>A system allocator that never fails: every call returns a block that is not null
  and whose header lies inside the address space.\<close>

definition sys_never_fails :: "sys_alloc \<Rightarrow> bool" where
  "sys_never_fails sys =
     (\<forall>k n. \<exists>a. sys k n = Some a \<and> a \<noteq> 0 \<and> a \<le> a + sizeof_MemoryHeader)"

text \<open>What the constructor does to one descriptor.\<close>

definition repair_maximum :: "MemoryDescriptor \<Rightarrow> MemoryDescriptor" where
  "repair_maximum d =
     (if maximum d \<noteq> 0 \<and> maximum d < minimum d then d\<lparr>maximum := minimum d\<rparr> else d)"

text \<open>Class \<open>j\<close> has the same statistics and the same pool in \<open>s'\<close> as in \<open>s\<close>.\<close>

definition class_untouched :: "nat \<Rightarrow> MemoryManager \<Rightarrow> MemoryManager \<Rightarrow> bool" where
  "class_untouched j s s' =
     (statistics s' ! j = statistics s ! j \<and>
      allocations_pool s' ! j = allocations_pool s ! j)"

text \<open>What \<open>PerformAllocation(j)\<close> returns on the profile, pools and statistics of \<open>s\<close>
  when \<open>operator new[]\<close> has been called \<open>n\<close> times before.\<close>

definition growth_result :: "sys_alloc \<Rightarrow> nat \<Rightarrow> MemoryManager \<Rightarrow> nat \<Rightarrow> fault + bool" where
  "growth_result sys j s n = fst (PerformAllocation sys j (s\<lparr>new_calls := n\<rparr>))"

text \<open>Class \<open>j\<close> was empty, its growth failed, and all that happened to it is that
  \<open>unfulfilled\<close> went up by one.\<close>

definition class_unfulfilled ::
  "sys_alloc \<Rightarrow> nat \<Rightarrow> MemoryManager \<Rightarrow> MemoryManager \<Rightarrow> bool" where
  "class_unfulfilled sys j s s' =
     (allocations_pool s ! j = [] \<and>
      (\<exists>n. growth_result sys j s n = Inr False) \<and>
      allocations_pool s' ! j = [] \<and>
      statistics s' ! j =
        (statistics s ! j)\<lparr>unfulfilled := unfulfilled (statistics s ! j) + 1\<rparr>)"

text \<open>Class \<open>i\<close> provided the block behind the pointer \<open>p\<close>: from its pool if that was
  not empty, by growing otherwise; \<open>allocations\<close> and \<open>outstanding\<close> went up by one and
  \<open>max_outstanding\<close> follows \<open>outstanding\<close>.\<close>

definition class_served ::
  "sys_alloc \<Rightarrow> nat \<Rightarrow> addr \<Rightarrow> MemoryManager \<Rightarrow> MemoryManager \<Rightarrow> bool" where
  "class_served sys i p s s' =
     (statistics s' ! i =
        (statistics s ! i)
          \<lparr>allocations := allocations (statistics s ! i) + 1,
           outstanding := outstanding (statistics s ! i) + 1,
           max_outstanding := max (outstanding (statistics s ! i) + 1)
                                  (max_outstanding (statistics s ! i))\<rparr> \<and>
      (if allocations_pool s ! i \<noteq> []
       then p = last (allocations_pool s ! i) + sizeof_MemoryHeader \<and>
            allocations_pool s' ! i = butlast (allocations_pool s ! i)
       else (\<exists>n b. growth_result sys i s n = Inr True \<and>
                   sys n (sizeof_MemoryHeader + size_d (profile s ! i) +
                          sizeof_MemoryTrailer) = Some b \<and>
                   p = b + sizeof_MemoryHeader) \<and>
            allocations_pool s' ! i = []))"

text \<open>The invariant behind the claim that \<open>Allocate\<close> never fails: the three vectors
  have the same length, every class may grow, and the payload address of every block
  in a pool is not null.\<close>

definition pools_valid :: "MemoryManager \<Rightarrow> bool" where
  "pools_valid s =
     (\<forall>pool\<in>set (allocations_pool s). \<forall>b\<in>set pool. b + sizeof_MemoryHeader \<noteq> 0)"

definition excess_everywhere :: "MemoryDescriptor list \<Rightarrow> bool" where
  "excess_everywhere prof = (\<forall>d\<in>set prof. excess_allowed d \<or> maximum d = 0)"

definition engine_ok :: "MemoryManager \<Rightarrow> bool" where
  "engine_ok s =
     (length (allocations_pool s) = length (profile s) \<and>
      length (statistics s) = length (profile s) \<and>
      excess_everywhere (profile s) \<and> pools_valid s)"

subsection \<open>A sorting procedure that keeps the promise of \<open>std::sort\<close>\<close>

text \<open>Insertion into a sorted list, before the first element that is not less.\<close>

fun insert_sorted :: "('a \<Rightarrow> 'a \<Rightarrow> bool) \<Rightarrow> 'a \<Rightarrow> 'a list \<Rightarrow> 'a list" where
  "insert_sorted lt x [] = [x]"
| "insert_sorted lt x (y # ys) =
     (if lt y x then y # insert_sorted lt x ys else x # y # ys)"

definition insertion_sort :: "('a \<Rightarrow> 'a \<Rightarrow> bool) \<Rightarrow> 'a list \<Rightarrow> 'a list" where
  "insertion_sort lt xs = foldr (insert_sorted lt) xs []"

subsection \<open>\<open>std::sort\<close> of the GNU C++ library\<close>

text \<open>
  \<open>std::sort\<close> as libstdc++ implements it (\<open>bits/stl_algo.h\<close>): \<open>__introsort_loop\<close>
  partitions every range of more than 16 elements around the median of three, and
  \<open>__final_insertion_sort\<close> finishes. The array is a list, iterators are indices into
  it (\<open>first_i\<close>, \<open>last_i\<close>, \<open>cut_i\<close> for \<open>__first\<close>, \<open>__last\<close>, \<open>__cut\<close>), and every
  function returns the array it leaves.
\<close>

definition iter_swap :: "nat \<Rightarrow> nat \<Rightarrow> 'a list \<Rightarrow> 'a list" where
  "iter_swap i j xs = xs[i := xs ! j, j := xs ! i]"

definition move_median_to_first ::
  "('a \<Rightarrow> 'a \<Rightarrow> bool) \<Rightarrow> nat \<Rightarrow> nat \<Rightarrow> nat \<Rightarrow> nat \<Rightarrow> 'a list \<Rightarrow> 'a list" where
  "move_median_to_first lt result a b c xs =
     (if lt (xs ! a) (xs ! b) then
        if lt (xs ! b) (xs ! c) then iter_swap result b xs
        else if lt (xs ! a) (xs ! c) then iter_swap result c xs
        else iter_swap result a xs
      else if lt (xs ! a) (xs ! c) then iter_swap result a xs
      else if lt (xs ! b) (xs ! c) then iter_swap result c xs
      else iter_swap result b xs)"

text \<open>
  The two inner loops of \<open>__unguarded_partition\<close>, \<open>while (comp(first, pivot)) ++first\<close>
  and \<open>while (comp(pivot, last)) --last\<close>. The library does not test the bounds, since the
  pivot stops both loops; the tests here only make the functions total.
\<close>

function scan_up :: "('a \<Rightarrow> 'a \<Rightarrow> bool) \<Rightarrow> 'a list \<Rightarrow> nat \<Rightarrow> nat \<Rightarrow> nat" where
  "scan_up lt xs pivot first_i =
     (if first_i < length xs \<and> lt (xs ! first_i) (xs ! pivot)
      then scan_up lt xs pivot (first_i + 1) else first_i)"
  by pat_completeness auto
termination
  by (relation "measure (\<lambda>(lt, xs, pivot, first_i). length xs - first_i)") auto

function scan_down :: "('a \<Rightarrow> 'a \<Rightarrow> bool) \<Rightarrow> 'a list \<Rightarrow> nat \<Rightarrow> nat \<Rightarrow> nat" where
  "scan_down lt xs pivot last_i =
     (if 0 < last_i \<and> lt (xs ! pivot) (xs ! last_i)
      then scan_down lt xs pivot (last_i - 1) else last_i)"
  by pat_completeness auto
termination
  by (relation "measure (\<lambda>(lt, xs, pivot, last_i). last_i)") auto

declare scan_up.simps [simp del] scan_down.simps [simp del]

lemma scan_up_ge: "first_i \<le> scan_up lt xs pivot first_i"
proof (induction lt xs pivot first_i rule: scan_up.induct)
  case (1 lt xs pivot first_i)
  show ?case
  proof (cases "first_i < length xs \<and> lt (xs ! first_i) (xs ! pivot)")
    case True
    with 1 have "first_i + 1 \<le> scan_up lt xs pivot (first_i + 1)" by blast
    with True show ?thesis by (subst scan_up.simps) simp
  next
    case False
    then have "scan_up lt xs pivot first_i = first_i" by (subst scan_up.simps) auto
    then show ?thesis by simp
  qed
qed

lemma scan_down_le: "scan_down lt xs pivot last_i \<le> last_i"
proof (induction lt xs pivot last_i rule: scan_down.induct)
  case (1 lt xs pivot last_i)
  show ?case
  proof (cases "0 < last_i \<and> lt (xs ! pivot) (xs ! last_i)")
    case True
    with 1 have "scan_down lt xs pivot (last_i - 1) \<le> last_i - 1" by blast
    with True show ?thesis by (subst scan_down.simps) simp
  next
    case False
    then have "scan_down lt xs pivot last_i = last_i" by (subst scan_down.simps) auto
    then show ?thesis by simp
  qed
qed

text \<open>\<open>__unguarded_partition(first, last, pivot)\<close>: the index where the two scans meet.\<close>

function unguarded_partition ::
  "('a \<Rightarrow> 'a \<Rightarrow> bool) \<Rightarrow> nat \<Rightarrow> nat \<Rightarrow> nat \<Rightarrow> 'a list \<Rightarrow> nat \<times> 'a list" where
  "unguarded_partition lt pivot first_i last_i xs =
     (if \<not> scan_up lt xs pivot first_i < scan_down lt xs pivot (last_i - 1)
      then (scan_up lt xs pivot first_i, xs)
      else unguarded_partition lt pivot (scan_up lt xs pivot first_i + 1)
             (scan_down lt xs pivot (last_i - 1))
             (iter_swap (scan_up lt xs pivot first_i) (scan_down lt xs pivot (last_i - 1)) xs))"
  by pat_completeness auto
termination
proof (relation "measure (\<lambda>(lt, pivot, first_i, last_i, xs). last_i - first_i)", goal_cases)
  case 1
  show ?case by simp
next
  case (2 lt pivot first_i last_i xs)
  have "first_i \<le> scan_up lt xs pivot first_i" by (rule scan_up_ge)
  moreover have "scan_down lt xs pivot (last_i - 1) \<le> last_i - 1" by (rule scan_down_le)
  ultimately show ?case using 2 by simp
qed

declare unguarded_partition.simps [simp del]

definition unguarded_partition_pivot ::
  "('a \<Rightarrow> 'a \<Rightarrow> bool) \<Rightarrow> nat \<Rightarrow> nat \<Rightarrow> 'a list \<Rightarrow> nat \<times> 'a list" where
  "unguarded_partition_pivot lt first_i last_i xs =
     unguarded_partition lt first_i (first_i + 1) last_i
       (move_median_to_first lt first_i (first_i + 1) (first_i + (last_i - first_i) div 2) (last_i - 1) xs)"

text \<open>
  \<open>__introsort_loop\<close>, by recursion on the depth limit, which goes down by one in every
  round of its loop. When the limit is exhausted on a range of more than 16 elements the
  library sorts the range by heap sort (\<open>std::__partial_sort\<close>); that procedure is the
  parameter \<open>partial_sort\<close> here.
\<close>

fun introsort_loop ::
  "('a \<Rightarrow> 'a \<Rightarrow> bool) \<Rightarrow> (nat \<Rightarrow> nat \<Rightarrow> 'a list \<Rightarrow> 'a list) \<Rightarrow> nat \<Rightarrow> nat \<Rightarrow> nat \<Rightarrow>
   'a list \<Rightarrow> 'a list" where
  "introsort_loop lt partial_sort first_i last_i 0 xs =
     (if 16 < last_i - first_i then partial_sort first_i last_i xs else xs)"
| "introsort_loop lt partial_sort first_i last_i (Suc depth_limit) xs =
     (if 16 < last_i - first_i then
        (case unguarded_partition_pivot lt first_i last_i xs of
           (cut_i, xs1) \<Rightarrow>
             introsort_loop lt partial_sort first_i cut_i depth_limit
               (introsort_loop lt partial_sort cut_i last_i depth_limit xs1))
      else xs)"

text \<open>
  \<open>__final_insertion_sort\<close> inserts the elements from left to right, each one moving
  left past the elements it is less than (\<open>__unguarded_linear_insert\<close>; an element less
  than the first one is moved to the front at once by \<open>__insertion_sort\<close>, which is where
  it would stop). The sorted prefix is kept in reverse, its last element first.
\<close>

fun linear_insert :: "('a \<Rightarrow> 'a \<Rightarrow> bool) \<Rightarrow> 'a \<Rightarrow> 'a list \<Rightarrow> 'a list" where
  "linear_insert lt val [] = [val]"
| "linear_insert lt val (y # ys) =
     (if lt val y then y # linear_insert lt val ys else val # y # ys)"

definition final_insertion_sort :: "('a \<Rightarrow> 'a \<Rightarrow> bool) \<Rightarrow> 'a list \<Rightarrow> 'a list" where
  "final_insertion_sort lt xs = rev (fold (linear_insert lt) xs [])"

text \<open>\<open>std::__lg\<close>, the floor of the binary logarithm.\<close>

function lg :: "nat \<Rightarrow> nat" where
  "lg n = (if n < 2 then 0 else lg (n div 2) + 1)"
  by pat_completeness auto
termination
  by (relation "measure id") auto

declare lg.simps [simp del]

definition libstdcxx_sort ::
  "(nat \<Rightarrow> nat \<Rightarrow> MemoryDescriptor list \<Rightarrow> MemoryDescriptor list) \<Rightarrow> std_sort" where
  "libstdcxx_sort partial_sort lt xs =
     (if xs = [] then xs
      else final_insertion_sort lt
             (introsort_loop lt partial_sort 0 (length xs) (lg (length xs) * 2) xs))"

text \<open>A sort of the range from \<open>first_i\<close> to \<open>last_i\<close>, where a value for \<open>partial_sort\<close> has
  to be named. No result below depends on it.\<close>

definition sort_range :: "('a \<Rightarrow> 'a \<Rightarrow> bool) \<Rightarrow> nat \<Rightarrow> nat \<Rightarrow> 'a list \<Rightarrow> 'a list" where
  "sort_range lt first_i last_i xs =
     take first_i xs @ final_insertion_sort lt (take (last_i - first_i) (drop first_i xs)) @
     drop last_i xs"

subsection \<open>Concrete inputs\<close>

text \<open>A system allocator that hands out the addresses 4096, 8192, ... (starting again
  after 1048576 calls, so that every address is a valid one), and one whose heap is
  exhausted.\<close>

definition bump_allocator :: sys_alloc where
  "bump_allocator k n = Some (word_of_nat (4096 * (k mod 1048576 + 1)))"

definition exhausted_heap :: sys_alloc where
  "exhausted_heap k n = None"

text \<open>A memory that holds 0 everywhere.\<close>

definition blank_memory :: "addr \<Rightarrow> uint64" where
  "blank_memory a = 0"

definition zero_statistics :: "size_t \<Rightarrow> Statistics" where
  "zero_statistics n =
     \<lparr>size_s = n, allocations = 0, deallocations = 0, corruption_count = 0,
      max_outstanding = 0, outstanding = 0, unfulfilled = 0\<rparr>"

text \<open>The engine built at address 512 from the profile \<open>{64, 1, 1, false}\<close>: one block at
  4096 in the pool.\<close>

definition engine1 :: MemoryManager where
  "engine1 =
     \<lparr>profile = [\<lparr>size_d = 64, minimum = 1, maximum = 1, excess_allowed = False\<rparr>],
      log_statistics = True, allocations_pool = [[4096]],
      statistics = [zero_statistics 64], this_ptr = 512,
      memory = blank_memory(4096 := 512, 4104 := 0, 4112 := Header_Marker_Value,
                        4184 := Trailer_Marker_Value),
      heap_deleted = [], new_calls = 1,
      logged = [Info_Initializing, Info_Descriptor 64 1]\<rparr>"

text \<open>The same engine after \<open>Allocate(32)\<close> has lent the block and the caller has written
  over the trailer.\<close>

definition engine1_overrun :: MemoryManager where
  "engine1_overrun =
     engine1\<lparr>allocations_pool := [[]],
             statistics := [(zero_statistics 64)
                \<lparr>allocations := 1, max_outstanding := 1, outstanding := 1\<rparr>],
             memory := (memory engine1)(4184 := 0)\<rparr>"

text \<open>The engine built at address 512 from the profile \<open>{64, 0, 0, false}\<close>: no limit and
  nothing reserved.\<close>

definition engine2 :: MemoryManager where
  "engine2 =
     \<lparr>profile = [\<lparr>size_d = 64, minimum = 0, maximum = 0, excess_allowed = False\<rparr>],
      log_statistics = True, allocations_pool = [[]],
      statistics = [zero_statistics 64], this_ptr = 512, memory = blank_memory,
      heap_deleted = [], new_calls = 0,
      logged = [Info_Initializing, Info_Descriptor 64 0]\<rparr>"

text \<open>The engine built at address 512 from the empty profile, where the caller's memory
  at 4096 happens to hold the value 512.\<close>

definition engine0 :: MemoryManager where
  "engine0 =
     \<lparr>profile = [], log_statistics = True, allocations_pool = [], statistics = [],
      this_ptr = 512, memory = blank_memory(4096 := 512), heap_deleted = [], new_calls = 0,
      logged = [Info_Initializing]\<rparr>"

text \<open>Seventeen classes of the same size, told apart by \<open>maximum\<close>.\<close>

definition same_size_class :: "size_t \<Rightarrow> MemoryDescriptor" where
  "same_size_class m = \<lparr>size_d = 64, minimum = 0, maximum = m, excess_allowed = True\<rparr>"

definition seventeen_classes :: "MemoryDescriptor list" where
  "seventeen_classes =
     map same_size_class [1, 2, 3, 4, 5, 6, 7, 8, 9, 10, 11, 12, 13, 14, 15, 16, 17]"

text \<open>A profile that is not sorted, with two classes of the same size and a \<open>maximum\<close>
  below its \<open>minimum\<close>, and the engine the constructor builds from it.\<close>

definition four_classes :: "MemoryDescriptor list" where
  "four_classes =
     [\<lparr>size_d = 256, minimum = 0, maximum = 0, excess_allowed = False\<rparr>,
      \<lparr>size_d = 64, minimum = 2, maximum = 1, excess_allowed = True\<rparr>,
      \<lparr>size_d = 64, minimum = 0, maximum = 5, excess_allowed = False\<rparr>,
      \<lparr>size_d = 32, minimum = 1, maximum = 1, excess_allowed = False\<rparr>]"

definition four_classes_engine :: MemoryManager where
  "four_classes_engine =
     projr (MemoryManager_ctor (libstdcxx_sort (sort_range descriptor_less)) bump_allocator
              512 blank_memory four_classes True)"

text \<open>An engine with two classes: the only block of class 0 is lent and class 0 may not
  grow; class 1 is empty and unlimited.\<close>

definition engine3 :: MemoryManager where
  "engine3 =
     \<lparr>profile = [\<lparr>size_d = 64, minimum = 1, maximum = 1, excess_allowed = False\<rparr>,
                 \<lparr>size_d = 256, minimum = 0, maximum = 0, excess_allowed = False\<rparr>],
      log_statistics = True, allocations_pool = [[], []],
      statistics = [(zero_statistics 64)
                      \<lparr>allocations := 1, max_outstanding := 1, outstanding := 1\<rparr>,
                    zero_statistics 256],
      this_ptr = 512,
      memory = blank_memory(4096 := 512, 4104 := 0, 4112 := Header_Marker_Value,
                            4184 := Trailer_Marker_Value),
      heap_deleted = [], new_calls = 1,
      logged = [Info_Initializing, Info_Descriptor 64 1, Info_Descriptor 256 0]\<rparr>"

text \<open>The engine built from \<open>{64, 1, 4, false}\<close>: one block at 4096 in the pool, room
  for three more.\<close>

definition engine4 :: MemoryManager where
  "engine4 =
     engine1\<lparr>profile := [\<lparr>size_d = 64, minimum = 1, maximum = 4, excess_allowed = False\<rparr>]\<rparr>"

section \<open>Basic facts\<close>

subsection \<open>Sorting\<close>

lemma mset_insert_sorted: "mset (insert_sorted lt x ys) = add_mset x (mset ys)"
  by (induction ys) simp_all

lemma set_insert_sorted: "set (insert_sorted lt x ys) = insert x (set ys)"
  by (induction ys) auto

lemma sorted_insert_sorted:
  "sorted (map size_d ys) \<Longrightarrow> sorted (map size_d (insert_sorted descriptor_less x ys))"
  by (induction ys) (auto simp add: set_insert_sorted descriptor_less_def)

lemma sorted_wrt_descriptor:
  "sorted_wrt (\<lambda>a b. \<not> descriptor_less b a) xs = sorted (map size_d xs)"
  by (simp add: sorted_map descriptor_less_def not_less)

lemma insertion_sort_contract: "std_sort_contract insertion_sort"
proof -
  have "mset (foldr (insert_sorted descriptor_less) xs []) = mset xs \<and>
        sorted (map size_d (foldr (insert_sorted descriptor_less) xs []))" for xs
    by (induction xs) (simp_all add: mset_insert_sorted sorted_insert_sorted)
  then show ?thesis
    by (simp add: std_sort_contract_def insertion_sort_def sorted_wrt_descriptor)
qed

text \<open>The library's sort on the seventeen classes: one round of partitioning, whatever
  \<open>partial_sort\<close> is.\<close>

lemma lg_17: "lg 17 = 4"
  by (simp add: lg.simps)

lemma list_update_Cons_numeral:
  "(x # xs)[numeral n := y] = x # xs[pred_numeral n := y]"
  by (simp add: numeral_eq_Suc)

lemma introsort_loop_numeral:
  "introsort_loop lt ps first_i last_i (numeral n) xs =
     (if 16 < last_i - first_i then
        (case unguarded_partition_pivot lt first_i last_i xs of
           (cut_i, xs1) \<Rightarrow>
             introsort_loop lt ps first_i cut_i (pred_numeral n)
               (introsort_loop lt ps cut_i last_i (pred_numeral n) xs1))
      else xs)"
  by (simp add: numeral_eq_Suc)

lemma introsort_loop_17:
  "introsort_loop descriptor_less ps 0 17 8 seventeen_classes =
     map same_size_class [9, 17, 16, 15, 14, 13, 12, 11, 10, 1, 8, 7, 6, 5, 4, 3, 2]"
  by (simp add: seventeen_classes_def introsort_loop_numeral list_update_Cons_numeral
      unguarded_partition_pivot_def move_median_to_first_def iter_swap_def
      unguarded_partition.simps scan_up.simps scan_down.simps
      descriptor_less_def same_size_class_def)

lemma final_insertion_sort_17:
  "final_insertion_sort descriptor_less
     (map same_size_class [9, 17, 16, 15, 14, 13, 12, 11, 10, 1, 8, 7, 6, 5, 4, 3, 2]) =
   map same_size_class [9, 17, 16, 15, 14, 13, 12, 11, 10, 1, 8, 7, 6, 5, 4, 3, 2]"
  by (simp add: final_insertion_sort_def descriptor_less_def same_size_class_def)

lemma sort17:
  "libstdcxx_sort ps descriptor_less seventeen_classes =
     map same_size_class [9, 17, 16, 15, 14, 13, 12, 11, 10, 1, 8, 7, 6, 5, 4, 3, 2]"
proof -
  have len: "length seventeen_classes = 17" by (simp add: seventeen_classes_def)
  have ne: "seventeen_classes \<noteq> []" by (simp add: seventeen_classes_def)
  have "lg 17 * 2 = 8" by (simp add: lg_17)
  with ne show ?thesis
    by (simp only: libstdcxx_sort_def len if_False introsort_loop_17
        final_insertion_sort_17)
qed

text \<open>Up to 16 elements only the final insertion sort runs.\<close>

lemma introsort_loop_small:
  "last_i - first_i \<le> 16 \<Longrightarrow> introsort_loop lt ps first_i last_i depth_limit xs = xs"
  by (cases depth_limit) simp_all

lemma libstdcxx_sort_small:
  "length xs \<le> 16 \<Longrightarrow> libstdcxx_sort ps lt xs = final_insertion_sort lt xs"
  by (simp add: libstdcxx_sort_def introsort_loop_small final_insertion_sort_def)

lemma sort_four_classes:
  "libstdcxx_sort ps descriptor_less four_classes =
     [\<lparr>size_d = 32, minimum = 1, maximum = 1, excess_allowed = False\<rparr>,
      \<lparr>size_d = 64, minimum = 2, maximum = 1, excess_allowed = True\<rparr>,
      \<lparr>size_d = 64, minimum = 0, maximum = 5, excess_allowed = False\<rparr>,
      \<lparr>size_d = 256, minimum = 0, maximum = 0, excess_allowed = False\<rparr>]"
  by (simp add: libstdcxx_sort_small four_classes_def final_insertion_sort_def
      descriptor_less_def)

lemma profile_init_class:
  "index < length (profile s) \<Longrightarrow>
   profile (init_class index s) = (profile s)[index := repair_maximum (profile s ! index)]"
  by (simp add: init_class_def repair_maximum_def Let_def)

lemma profile_MemoryManager_classes:
  "MemoryManager_classes sys k s = (Inr u, s') \<Longrightarrow>
   profile s' = take k (profile s) @ map repair_maximum (drop k (profile s))"
proof (induction sys k s rule: MemoryManager_classes.induct)
  case (1 sys index s)
  show ?case
  proof (cases "index < length (profile s)")
    case False
    with "1.prems" show ?thesis by (simp add: MemoryManager_classes.simps)
  next
    case True
    let ?s0 = "init_class index s"
    obtain r s1 where rm:
      "reserve_minimum sys index (unat (minimum (profile ?s0 ! index))) ?s0 = (r, s1)"
      by (cases "reserve_minimum sys index (unat (minimum (profile ?s0 ! index))) ?s0")
    have p1: "profile s1 = (profile s)[index := repair_maximum (profile s ! index)]"
      using profile_reserve_minimum
              [of sys index "unat (minimum (profile ?s0 ! index))" ?s0] rm True
      by (simp add: profile_init_class)
    from "1.prems" True rm obtain v where r: "r = Inr v"
      and rec: "MemoryManager_classes sys (index + 1) s1 = (Inr u, s')"
      by (cases r) (simp_all add: MemoryManager_classes.simps)
    from "1.IH" [OF True rm [symmetric] r rec]
    have "profile s' = take (index + 1) (profile s1) @
            map repair_maximum (drop (index + 1) (profile s1))" .
    with p1 True show ?thesis
      by (simp add: take_Suc_conv_app_nth Cons_nth_drop_Suc [symmetric])
  qed
qed

subsection \<open>One iteration of the loop of \<open>Allocate\<close>\<close>

lemma Allocate_loop_end:
  "\<not> index < length (profile s) \<Longrightarrow> Allocate_loop sys sz index s = (Inr 0, s)"
  by (simp add: Allocate_loop.simps)

lemma Allocate_loop_skip:
  "index < length (profile s) \<Longrightarrow> size_d (profile s ! index) < sz \<Longrightarrow>
   Allocate_loop sys sz index s = Allocate_loop sys sz (index + 1) s"
  by (subst Allocate_loop.simps) simp

lemma Allocate_loop_pool:
  "index < length (profile s) \<Longrightarrow> \<not> size_d (profile s ! index) < sz \<Longrightarrow>
   allocations_pool s ! index \<noteq> [] \<Longrightarrow>
   Allocate_loop sys sz index s = take_block index s"
  by (subst Allocate_loop.simps) (simp add: Let_def take_block_def)

lemma Allocate_loop_throw:
  "index < length (profile s) \<Longrightarrow> \<not> size_d (profile s ! index) < sz \<Longrightarrow>
   allocations_pool s ! index = [] \<Longrightarrow> PerformAllocation sys index s = (Inl e, s1) \<Longrightarrow>
   Allocate_loop sys sz index s = (Inl e, s1)"
  by (subst Allocate_loop.simps) simp

lemma Allocate_loop_unfulfilled:
  "index < length (profile s) \<Longrightarrow> \<not> size_d (profile s ! index) < sz \<Longrightarrow>
   allocations_pool s ! index = [] \<Longrightarrow> PerformAllocation sys index s = (Inr False, s1) \<Longrightarrow>
   Allocate_loop sys sz index s =
     Allocate_loop sys sz (index + 1)
       (s1\<lparr>statistics := (statistics s1)
             [index := (statistics s1 ! index)
                \<lparr>unfulfilled := unfulfilled (statistics s1 ! index) + 1\<rparr>]\<rparr>)"
  by (subst Allocate_loop.simps) simp

lemma Allocate_loop_grown:
  "index < length (profile s) \<Longrightarrow> \<not> size_d (profile s ! index) < sz \<Longrightarrow>
   allocations_pool s ! index = [] \<Longrightarrow> PerformAllocation sys index s = (Inr True, s1) \<Longrightarrow>
   Allocate_loop sys sz index s =
     (if allocations_pool s1 ! index \<noteq> [] then take_block index s1
      else Allocate_loop sys sz (index + 1) s1)"
  by (subst Allocate_loop.simps) (simp add: Let_def take_block_def)

text \<open>The outcomes of \<open>PerformAllocation\<close>.\<close>

lemma PerformAllocation_False:
  "PerformAllocation sys index s = (Inr False, s1) \<Longrightarrow>
   profile s1 = profile s \<and> statistics s1 = statistics s \<and>
   allocations_pool s1 = allocations_pool s \<and> memory s1 = memory s \<and>
   heap_deleted s1 = heap_deleted s \<and> this_ptr s1 = this_ptr s"
  by (auto simp add: PerformAllocation_def Let_def split: if_splits option.splits)

lemma PerformAllocation_True:
  "PerformAllocation sys index s = (Inr True, s1) \<Longrightarrow>
   profile s1 = profile s \<and> statistics s1 = statistics s \<and>
   heap_deleted s1 = heap_deleted s \<and> this_ptr s1 = this_ptr s \<and>
   (\<exists>b. b \<noteq> 0 \<and>
        sys (new_calls s) (sizeof_MemoryHeader + size_d (profile s ! index) +
          sizeof_MemoryTrailer) = Some b \<and>
        allocations_pool s1 =
          (allocations_pool s)[index := allocations_pool s ! index @ [b]])"
  by (auto simp add: PerformAllocation_def Let_def split: if_splits option.splits)

lemma profile_take_block: "profile (snd (take_block index s)) = profile s"
  by (simp add: take_block_def)

lemma profile_Allocate_loop: "profile (snd (Allocate_loop sys sz k s)) = profile s"
proof (induction "length (profile s) - k" arbitrary: k s rule: less_induct)
  case less
  show ?case
  proof (cases "k < length (profile s)")
    case False
    then show ?thesis by (simp add: Allocate_loop_end)
  next
    case inr: True
    have step: "profile (snd (Allocate_loop sys sz (Suc k) t)) = profile s"
      if "profile t = profile s" for t
      using less [of t "Suc k"] that inr by simp
    show ?thesis
    proof (cases "size_d (profile s ! k) < sz")
      case True
      with inr step [of s] show ?thesis by (simp add: Allocate_loop_skip)
    next
      case big: False
      show ?thesis
      proof (cases "allocations_pool s ! k = []")
        case False
        with inr big show ?thesis by (simp add: Allocate_loop_pool profile_take_block)
      next
        case empty: True
        obtain r s1 where pa: "PerformAllocation sys k s = (r, s1)"
          by (cases "PerformAllocation sys k s")
        then have p1: "profile s1 = profile s"
          using profile_PerformAllocation [of sys k s] by simp
        show ?thesis
        proof (cases r)
          case (Inl e)
          with inr big empty pa p1 show ?thesis by (simp add: Allocate_loop_throw)
        next
          case (Inr b)
          show ?thesis
          proof (cases b)
            case False
            with inr big empty pa Inr p1 show ?thesis
              by (simp add: Allocate_loop_unfulfilled step)
          next
            case True
            with inr big empty pa Inr p1 show ?thesis
              by (simp add: Allocate_loop_grown step profile_take_block)
          qed
        qed
      qed
    qed
  qed
qed

subsection \<open>The profile after construction and afterwards\<close>

lemma profile_Free: "profile (snd (Free p s)) = profile s"
  by (simp add: Free_def Let_def)

lemma profile_MemoryManager_ctor:
  assumes "MemoryManager_ctor srt sys this mem prof ls = Inr s"
  shows "profile s = map repair_maximum (srt descriptor_less prof)"
proof -
  let ?s0 = "\<lparr>profile = srt descriptor_less prof, log_statistics = ls,
              allocations_pool = [], statistics = [], this_ptr = this, memory = mem,
              heap_deleted = [], new_calls = 0, logged = [Info_Initializing]\<rparr>"
  obtain r s1 where c: "MemoryManager_classes sys 0 ?s0 = (r, s1)"
    by (cases "MemoryManager_classes sys 0 ?s0")
  with assms obtain u where "r = Inr u" and "s1 = s"
    by (cases r) (simp_all add: MemoryManager_ctor_def)
  with c profile_MemoryManager_classes [of sys 0 ?s0 u s] show ?thesis by simp
qed

lemma size_d_repair_maximum: "size_d (repair_maximum d) = size_d d"
  by (simp add: repair_maximum_def)

text \<open>The constructor on the four classes.\<close>

lemma reserve_minimum_numeral:
  "reserve_minimum sys index (numeral n) s =
     (case PerformAllocation sys index s of
        (Inl e, s1) \<Rightarrow> (Inl e, s1)
      | (Inr b, s1) \<Rightarrow> reserve_minimum sys index (pred_numeral n) s1)"
  by (simp add: numeral_eq_Suc)

lemma ctor_four_classes:
  "\<exists>s. MemoryManager_ctor (libstdcxx_sort (sort_range descriptor_less)) bump_allocator
          512 blank_memory four_classes True = Inr s \<and>
       profile s =
         [\<lparr>size_d = 32, minimum = 1, maximum = 1, excess_allowed = False\<rparr>,
          \<lparr>size_d = 64, minimum = 2, maximum = 2, excess_allowed = True\<rparr>,
          \<lparr>size_d = 64, minimum = 0, maximum = 5, excess_allowed = False\<rparr>,
          \<lparr>size_d = 256, minimum = 0, maximum = 0, excess_allowed = False\<rparr>]"
  by (simp add: MemoryManager_ctor_def sort_four_classes MemoryManager_classes.simps
      init_class_def Let_def PerformAllocation_def bump_allocator_def
      sizeof_MemoryHeader_def sizeof_MemoryTrailer_def reserve_minimum_numeral)

lemma profile_four_classes_engine:
  "profile four_classes_engine =
     [\<lparr>size_d = 32, minimum = 1, maximum = 1, excess_allowed = False\<rparr>,
      \<lparr>size_d = 64, minimum = 2, maximum = 2, excess_allowed = True\<rparr>,
      \<lparr>size_d = 64, minimum = 0, maximum = 5, excess_allowed = False\<rparr>,
      \<lparr>size_d = 256, minimum = 0, maximum = 0, excess_allowed = False\<rparr>]"
  using ctor_four_classes by (auto simp add: four_classes_engine_def)

subsection \<open>What \<open>Allocate\<close> does to each class\<close>

lemma growth_result_now: "growth_result sys j s (new_calls s) = fst (PerformAllocation sys j s)"
  by (simp add: growth_result_def)

lemma growth_result_cong:
  "profile t = profile s \<Longrightarrow> allocations_pool t ! j = allocations_pool s ! j \<Longrightarrow>
   statistics t ! j = statistics s ! j \<Longrightarrow>
   growth_result sys j t n = growth_result sys j s n"
  by (simp add: growth_result_def PerformAllocation_def Let_def split: option.splits)

lemma class_untouched_refl: "class_untouched j s s"
  by (simp add: class_untouched_def)

lemma class_untouched_trans:
  "class_untouched j s t \<Longrightarrow> class_untouched j t u \<Longrightarrow> class_untouched j s u"
  by (simp add: class_untouched_def)

lemma class_unfulfilled_transfer:
  "class_untouched j s t \<Longrightarrow> profile t = profile s \<Longrightarrow> class_unfulfilled sys j t s' \<Longrightarrow>
   class_unfulfilled sys j s s'"
  using growth_result_cong [of t s j sys]
  by (auto simp add: class_untouched_def class_unfulfilled_def)

lemma class_served_transfer:
  "class_untouched i s t \<Longrightarrow> profile t = profile s \<Longrightarrow> class_served sys i p t s' \<Longrightarrow>
   class_served sys i p s s'"
  using growth_result_cong [of t s i sys]
  by (auto simp add: class_untouched_def class_served_def split: if_splits)

lemma PerformAllocation_untouched:
  "j \<noteq> index \<Longrightarrow> class_untouched j s (snd (PerformAllocation sys index s))"
  by (simp add: class_untouched_def PerformAllocation_def Let_def split: option.splits)

lemma take_block_untouched: "j \<noteq> index \<Longrightarrow> class_untouched j s (snd (take_block index s))"
  by (simp add: class_untouched_def take_block_def)

lemma bump_untouched:
  "j \<noteq> index \<Longrightarrow>
   class_untouched j s (s\<lparr>statistics := (statistics s)[index := st]\<rparr>)"
  by (simp add: class_untouched_def)

lemma Allocate_loop_frame:
  "j < k \<Longrightarrow> class_untouched j s (snd (Allocate_loop sys sz k s))"
proof (induction "length (profile s) - k" arbitrary: k s rule: less_induct)
  case less
  show ?case
  proof (cases "k < length (profile s)")
    case False
    then show ?thesis by (simp add: Allocate_loop_end class_untouched_refl)
  next
    case inr: True
    have step: "class_untouched j t (snd (Allocate_loop sys sz (Suc k) t))"
      if "profile t = profile s" for t
      using less(1) [of t "Suc k"] less(2) that inr by simp
    show ?thesis
    proof (cases "size_d (profile s ! k) < sz")
      case True
      with inr step [of s] show ?thesis by (simp add: Allocate_loop_skip)
    next
      case big: False
      show ?thesis
      proof (cases "allocations_pool s ! k = []")
        case False
        with inr big less(2) show ?thesis
          by (simp add: Allocate_loop_pool take_block_untouched)
      next
        case empty: True
        obtain r s1 where pa: "PerformAllocation sys k s = (r, s1)"
          by (cases "PerformAllocation sys k s")
        then have p1: "profile s1 = profile s"
          using profile_PerformAllocation [of sys k s] by simp
        from pa less(2) have u1: "class_untouched j s s1"
          using PerformAllocation_untouched [of j k s sys] by simp
        show ?thesis
        proof (cases r)
          case (Inl e)
          with inr big empty pa u1 show ?thesis by (simp add: Allocate_loop_throw)
        next
          case (Inr b)
          show ?thesis
          proof (cases b)
            case False
            let ?s2 = "s1\<lparr>statistics := (statistics s1)
                  [k := (statistics s1 ! k)
                     \<lparr>unfulfilled := unfulfilled (statistics s1 ! k) + 1\<rparr>]\<rparr>"
            from less(2) have "class_untouched j s1 ?s2" by (simp add: bump_untouched)
            with u1 have "class_untouched j s ?s2" by (rule class_untouched_trans)
            moreover have "class_untouched j ?s2 (snd (Allocate_loop sys sz (Suc k) ?s2))"
              using p1 by (simp add: step)
            ultimately have "class_untouched j s (snd (Allocate_loop sys sz (Suc k) ?s2))"
              by (rule class_untouched_trans)
            with inr big empty pa Inr False show ?thesis
              by (simp add: Allocate_loop_unfulfilled)
          next
            case True
            have "class_untouched j s (snd (take_block k s1))"
              using u1 take_block_untouched [of j k s1] less(2)
              by (auto intro: class_untouched_trans)
            moreover have "class_untouched j s (snd (Allocate_loop sys sz (Suc k) s1))"
              using u1 step [OF p1] by (rule class_untouched_trans)
            ultimately show ?thesis
              using inr big empty pa Inr True by (simp add: Allocate_loop_grown)
          qed
        qed
      qed
    qed
  qed
qed

lemma take_block_served:
  assumes "k < length (statistics s)" and "k < length (allocations_pool s)"
    and "allocations_pool s ! k \<noteq> []"
  shows "class_served sys k (last (allocations_pool s ! k) + sizeof_MemoryHeader) s
           (snd (take_block k s))"
  using assms by (simp add: class_served_def take_block_def)

lemma Allocate_loop_served:
  assumes "Allocate_loop sys sz k s = (Inr p, s')" and "p \<noteq> 0"
    and "length (allocations_pool s) = length (profile s)"
    and "length (statistics s) = length (profile s)"
  shows "\<exists>i. k \<le> i \<and> i < length (profile s) \<and> sz \<le> size_d (profile s ! i) \<and>
           (\<forall>j. k \<le> j \<and> j < i \<longrightarrow>
              (if size_d (profile s ! j) < sz then class_untouched j s s'
               else class_unfulfilled sys j s s')) \<and>
           (\<forall>j. i < j \<longrightarrow> class_untouched j s s') \<and>
           class_served sys i p s s'"
  using assms
proof (induction "length (profile s) - k" arbitrary: k s rule: less_induct)
  case less
  note res = less.prems(1) and nz = less.prems(2)
    and lp = less.prems(3) and ls = less.prems(4)
  show ?case
  proof (cases "k < length (profile s)")
    case False
    with res nz show ?thesis by (simp add: Allocate_loop_end)
  next
    case inr: True
    show ?thesis
    proof (cases "size_d (profile s ! k) < sz")
      case small: True
      with inr res have rec: "Allocate_loop sys sz (Suc k) s = (Inr p, s')"
        by (simp add: Allocate_loop_skip)
      have dec: "length (profile s) - Suc k < length (profile s) - k" using inr by simp
      from less.hyps [of s "Suc k", OF dec rec nz lp ls]
      obtain i where i: "Suc k \<le> i" "i < length (profile s)" "sz \<le> size_d (profile s ! i)"
        "\<forall>j. Suc k \<le> j \<and> j < i \<longrightarrow>
              (if size_d (profile s ! j) < sz then class_untouched j s s'
               else class_unfulfilled sys j s s')"
        "\<forall>j. i < j \<longrightarrow> class_untouched j s s'"
        "class_served sys i p s s'"
        by blast
      have k: "class_untouched k s s'"
        using Allocate_loop_frame [of k "Suc k" s sys sz] rec by simp
      have "\<forall>j. k \<le> j \<and> j < i \<longrightarrow>
              (if size_d (profile s ! j) < sz then class_untouched j s s'
               else class_unfulfilled sys j s s')"
      proof (intro allI impI)
        fix j assume j: "k \<le> j \<and> j < i"
        show "if size_d (profile s ! j) < sz then class_untouched j s s'
               else class_unfulfilled sys j s s'"
        proof (cases "j = k")
          case True
          with small k show ?thesis by simp
        next
          case False
          with j have "Suc k \<le> j \<and> j < i" by simp
          with i(4) show ?thesis by blast
        qed
      qed
      with i show ?thesis by (intro exI [of _ i]) simp
    next
      case big: False
      then have le: "sz \<le> size_d (profile s ! k)" by simp
      show ?thesis
      proof (cases "allocations_pool s ! k = []")
        case False
        with inr big res have "take_block k s = (Inr p, s')"
          by (simp add: Allocate_loop_pool)
        then have p: "p = last (allocations_pool s ! k) + sizeof_MemoryHeader"
          and s': "s' = snd (take_block k s)"
          by (auto simp add: take_block_def)
        have "class_served sys k p s s'"
          unfolding p s' using inr lp ls False by (intro take_block_served) simp_all
        moreover have "\<forall>j. k < j \<longrightarrow> class_untouched j s s'"
          unfolding s' by (simp add: take_block_untouched)
        ultimately show ?thesis using inr le by (intro exI [of _ k]) auto
      next
        case empty: True
        obtain r s1 where pa: "PerformAllocation sys k s = (r, s1)"
          by (cases "PerformAllocation sys k s")
        show ?thesis
        proof (cases r)
          case (Inl e)
          with inr big empty pa res show ?thesis by (simp add: Allocate_loop_throw)
        next
          case (Inr b)
          show ?thesis
          proof (cases b)
            case False
            with pa Inr have paF: "PerformAllocation sys k s = (Inr False, s1)" by simp
            from PerformAllocation_False [OF paF]
            have p1: "profile s1 = profile s" and st1: "statistics s1 = statistics s"
              and pl1: "allocations_pool s1 = allocations_pool s" by simp_all
            let ?s2 = "s1\<lparr>statistics := (statistics s1)
                  [k := (statistics s1 ! k)
                     \<lparr>unfulfilled := unfulfilled (statistics s1 ! k) + 1\<rparr>]\<rparr>"
            from inr big empty paF res
            have rec: "Allocate_loop sys sz (Suc k) ?s2 = (Inr p, s')"
              by (simp add: Allocate_loop_unfulfilled)
            have p2: "profile ?s2 = profile s" using p1 by simp
            have same: "class_untouched j s ?s2" if "j \<noteq> k" for j
              using that st1 pl1 by (simp add: class_untouched_def)
            have dec: "length (profile ?s2) - Suc k < length (profile s) - k"
              using inr p1 by simp
            have lp2: "length (allocations_pool ?s2) = length (profile ?s2)"
              using lp p1 pl1 by simp
            have ls2: "length (statistics ?s2) = length (profile ?s2)"
              using ls p1 st1 by simp
            from less.hyps [of ?s2 "Suc k", OF dec rec nz lp2 ls2]
            have "\<exists>i. Suc k \<le> i \<and> i < length (profile s) \<and>
              sz \<le> size_d (profile s ! i) \<and>
              (\<forall>j. Suc k \<le> j \<and> j < i \<longrightarrow>
                (if size_d (profile s ! j) < sz then class_untouched j ?s2 s'
                 else class_unfulfilled sys j ?s2 s')) \<and>
              (\<forall>j. i < j \<longrightarrow> class_untouched j ?s2 s') \<and>
              class_served sys i p ?s2 s'"
              by (simp add: p1)
            then obtain i where i: "Suc k \<le> i" "i < length (profile s)"
              "sz \<le> size_d (profile s ! i)"
              "\<forall>j. Suc k \<le> j \<and> j < i \<longrightarrow>
                (if size_d (profile s ! j) < sz then class_untouched j ?s2 s'
                 else class_unfulfilled sys j ?s2 s')"
              "\<forall>j. i < j \<longrightarrow> class_untouched j ?s2 s'"
              "class_served sys i p ?s2 s'"
              by blast
            have fr: "class_untouched k ?s2 s'"
              using Allocate_loop_frame [of k "Suc k" ?s2 sys sz] rec by simp
            have kk: "class_unfulfilled sys k s s'"
            proof -
              have "growth_result sys k s (new_calls s) = Inr False"
                using paF by (simp add: growth_result_now)
              then have "\<exists>n. growth_result sys k s n = Inr False" ..
              moreover have "allocations_pool s' ! k = []"
                using fr pl1 empty by (simp add: class_untouched_def)
              moreover have "statistics s' ! k =
                  (statistics s ! k)\<lparr>unfulfilled := unfulfilled (statistics s ! k) + 1\<rparr>"
                using fr st1 inr ls by (simp add: class_untouched_def)
              ultimately show ?thesis using empty by (simp add: class_unfulfilled_def)
            qed
            have mid: "\<forall>j. k \<le> j \<and> j < i \<longrightarrow>
              (if size_d (profile s ! j) < sz then class_untouched j s s'
               else class_unfulfilled sys j s s')"
            proof (intro allI impI)
              fix j assume j: "k \<le> j \<and> j < i"
              show "if size_d (profile s ! j) < sz then class_untouched j s s'
                    else class_unfulfilled sys j s s'"
              proof (cases "j = k")
                case True
                with big kk show ?thesis by simp
              next
                case False
                with j have "Suc k \<le> j \<and> j < i" by simp
                with i(4) have "if size_d (profile s ! j) < sz then class_untouched j ?s2 s'
                    else class_unfulfilled sys j ?s2 s'" by blast
                with same [OF False] p2 show ?thesis
                  by (auto intro: class_untouched_trans class_unfulfilled_transfer
                      split: if_splits)
              qed
            qed
            have after: "\<forall>j. i < j \<longrightarrow> class_untouched j s s'"
            proof (intro allI impI)
              fix j assume "i < j"
              with i(1) have "j \<noteq> k" by simp
              from same [OF this] i(5) \<open>i < j\<close> show "class_untouched j s s'"
                by (blast intro: class_untouched_trans)
            qed
            have "i \<noteq> k" using i(1) by simp
            from same [OF this] p2 i(6) have "class_served sys i p s s'"
              by (rule class_served_transfer)
            with i(1-3) mid after show ?thesis by (intro exI [of _ i]) simp
          next
            case True
            with pa Inr have paT: "PerformAllocation sys k s = (Inr True, s1)" by simp
            from PerformAllocation_True [OF paT]
            obtain blk where p1: "profile s1 = profile s"
              and st1: "statistics s1 = statistics s"
              and blk: "blk \<noteq> 0"
                "sys (new_calls s) (sizeof_MemoryHeader + size_d (profile s ! k) +
                   sizeof_MemoryTrailer) = Some blk"
              and pl1: "allocations_pool s1 =
                  (allocations_pool s)[k := allocations_pool s ! k @ [blk]]"
              by auto
            from pl1 inr lp empty have pk: "allocations_pool s1 ! k = [blk]" by simp
            with inr big empty paT res have tb: "take_block k s1 = (Inr p, s')"
              by (simp add: Allocate_loop_grown)
            with pk have p: "p = blk + sizeof_MemoryHeader"
              and s': "s' = snd (take_block k s1)"
              by (auto simp add: take_block_def)
            have "growth_result sys k s (new_calls s) = Inr True"
              using paT by (simp add: growth_result_now)
            with blk(2) p have ex: "\<exists>n b. growth_result sys k s n = Inr True \<and>
                   sys n (sizeof_MemoryHeader + size_d (profile s ! k) +
                          sizeof_MemoryTrailer) = Some b \<and>
                   p = b + sizeof_MemoryHeader" by blast
            have "class_served sys k p s s'"
              using ex empty inr lp ls st1 pl1
              by (simp add: class_served_def s' take_block_def)
            moreover have "\<forall>j. k < j \<longrightarrow> class_untouched j s s'"
              using st1 pl1 by (simp add: class_untouched_def s' take_block_def)
            ultimately show ?thesis using inr le by (intro exI [of _ k]) auto
          qed
        qed
      qed
    qed
  qed
qed


lemma Allocate_engine3:
  "fst (Allocate bump_allocator 32 engine3) = Inr 8216 \<and>
   statistics (snd (Allocate bump_allocator 32 engine3)) =
     [(zero_statistics 64)\<lparr>allocations := 1, max_outstanding := 1, outstanding := 1,
         unfulfilled := 1\<rparr>,
      (zero_statistics 256)\<lparr>allocations := 1, max_outstanding := 1, outstanding := 1\<rparr>] \<and>
   allocations_pool (snd (Allocate bump_allocator 32 engine3)) = [[], []]"
  by (simp add: Allocate_def Allocate_loop.simps Let_def PerformAllocation_def engine3_def
      zero_statistics_def bump_allocator_def sizeof_MemoryHeader_def)

subsection \<open>Blocks leave a pool in the reverse order\<close>

lemma Allocate_loop_skip_to:
  "k \<le> i \<Longrightarrow> i \<le> length (profile s) \<Longrightarrow>
   \<forall>j. k \<le> j \<and> j < i \<longrightarrow> size_d (profile s ! j) < sz \<Longrightarrow>
   Allocate_loop sys sz k s = Allocate_loop sys sz i s"
proof (induction "i - k" arbitrary: k)
  case 0
  then show ?case by simp
next
  case (Suc n)
  then have "k < i" and "k < length (profile s)" and "size_d (profile s ! k) < sz"
    by auto
  then have "Allocate_loop sys sz k s = Allocate_loop sys sz (Suc k) s"
    by (simp add: Allocate_loop_skip)
  also have "\<dots> = Allocate_loop sys sz i s"
    using Suc.hyps(1) [of "Suc k"] Suc.hyps(2) Suc.prems \<open>k < i\<close> by auto
  finally show ?case .
qed

lemma Allocate_from_pool:
  assumes "i < length (profile s)"
    and "\<forall>j<i. size_d (profile s ! j) < sz" and "sz \<le> size_d (profile s ! i)"
    and "allocations_pool s ! i \<noteq> []"
  shows "Allocate sys sz s = take_block i s"
proof -
  have "Allocate sys sz s = Allocate_loop sys sz i s"
    unfolding Allocate_def using assms(1,2) by (intro Allocate_loop_skip_to) auto
  also have "\<dots> = take_block i s"
    using assms by (intro Allocate_loop_pool) (auto simp add: not_less)
  finally show ?thesis .
qed

lemma Allocate_all_pops:
  assumes "i < length (allocations_pool s)" and "i < length (profile s)"
    and "\<forall>j<i. size_d (profile s ! j) < sz" and "sz \<le> size_d (profile s ! i)"
    and "allocations_pool s ! i = xs @ ys"
  shows "fst (Allocate_all sys (replicate (length ys) sz) s) =
           map (\<lambda>b. Inr (b + sizeof_MemoryHeader)) (rev ys)"
  using assms
proof (induction ys arbitrary: s rule: rev_induct)
  case Nil
  then show ?case by simp
next
  case (snoc y ys)
  let ?s1 = "snd (take_block i s)"
  from snoc.prems have al: "Allocate sys sz s = take_block i s"
    by (intro Allocate_from_pool) auto
  have l: "last (allocations_pool s ! i) = y" using snoc.prems(5) by simp
  have "allocations_pool ?s1 ! i = xs @ ys"
    using snoc.prems(1,5) by (simp add: take_block_def butlast_append)
  moreover have "profile ?s1 = profile s" by (simp add: take_block_def)
  moreover have "length (allocations_pool ?s1) = length (allocations_pool s)"
    by (simp add: take_block_def)
  ultimately have "fst (Allocate_all sys (replicate (length ys) sz) ?s1) =
           map (\<lambda>b. Inr (b + sizeof_MemoryHeader)) (rev ys)"
    using snoc.prems by (intro snoc.IH) simp_all
  moreover have "fst (take_block i s) = Inr (y + sizeof_MemoryHeader)"
    using l by (simp add: take_block_def)
  ultimately show ?case
    using al by (simp add: split_beta)
qed

subsection \<open>\<open>Free\<close> of a block with intact markers\<close>

lemma deallocations_freed_statistics:
  "deallocations (freed_statistics st) = deallocations st + 1"
  by (simp add: freed_statistics_def Let_def)

lemma Free_intact:
  assumes "block = p - sizeof_MemoryHeader" and "block \<noteq> 0" and "block \<le> p"
    and "memory s block = this_ptr s" and "unat (memory s (block + 8)) = i"
    and "i < length (profile s)"
    and "memory s (block + 16) = Header_Marker_Value"
    and "memory s (block + sizeof_MemoryHeader + size_d (profile s ! i)) =
           Trailer_Marker_Value"
  shows "Free p s =
     (Inr True,
      (if maximum (profile s ! i) = 0 \<or>
          length (allocations_pool s ! i) < unat (maximum (profile s ! i))
       then s\<lparr>statistics := (statistics s)[i := freed_statistics (statistics s ! i)],
               allocations_pool := (allocations_pool s)
                 [i := allocations_pool s ! i @ [block]]\<rparr>
       else s\<lparr>statistics := (statistics s)[i := freed_statistics (statistics s ! i)],
               heap_deleted := heap_deleted s @ [block]\<rparr>))"
proof -
  have a: "\<not> p < block" using assms(3) by simp
  have b: "\<not> length (profile s) - 1 < i" using assms(6) by arith
  show ?thesis
    using assms(1,2,4-8) a b
    by (simp add: Free_def Let_def freed_statistics_def)
qed

subsection \<open>Engines whose classes may all grow\<close>

lemma sys_never_fails_block:
  assumes "sys_never_fails sys"
  shows "\<exists>a. sys k n = Some a \<and> a \<noteq> 0 \<and> a + sizeof_MemoryHeader \<noteq> 0"
proof -
  from assms obtain a where a: "sys k n = Some a" "a \<noteq> 0" "a \<le> a + sizeof_MemoryHeader"
    unfolding sys_never_fails_def by blast
  have "a + sizeof_MemoryHeader \<noteq> 0"
  proof
    assume "a + sizeof_MemoryHeader = 0"
    with a(3) have "a \<le> 0" by simp
    with a(2) show False by simp
  qed
  with a show ?thesis by blast
qed

lemma PerformAllocation_succeeds:
  assumes "sys_never_fails sys"
    and "excess_allowed (profile s ! i) \<or> maximum (profile s ! i) = 0"
  shows "\<exists>b s1. PerformAllocation sys i s = (Inr True, s1) \<and>
           b + sizeof_MemoryHeader \<noteq> 0 \<and> profile s1 = profile s \<and>
           statistics s1 = statistics s \<and>
           allocations_pool s1 = (allocations_pool s)[i := allocations_pool s ! i @ [b]]"
proof -
  from sys_never_fails_block [OF assms(1)]
  obtain a where a: "sys (new_calls s)
      (sizeof_MemoryHeader + size_d (profile s ! i) + sizeof_MemoryTrailer) = Some a"
    "a \<noteq> 0" "a + sizeof_MemoryHeader \<noteq> 0"
    by blast
  with assms(2) show ?thesis
    by (auto simp add: PerformAllocation_def Let_def)
qed

lemma pools_valid_update:
  assumes "pools_valid s" and "\<forall>b\<in>set new. b + sizeof_MemoryHeader \<noteq> 0"
    and "allocations_pool t = (allocations_pool s)[k := new]"
  shows "pools_valid t"
proof -
  have "set (allocations_pool t) \<subseteq> insert new (set (allocations_pool s))"
    unfolding assms(3) by (rule set_update_subset_insert)
  with assms(1,2) show ?thesis unfolding pools_valid_def by blast
qed

lemma take_block_ok:
  assumes "engine_ok s" and "k < length (profile s)" and "allocations_pool s ! k \<noteq> []"
  shows "\<exists>p s'. take_block k s = (Inr p, s') \<and> p \<noteq> 0 \<and>
           profile s' = profile s \<and> engine_ok s'"
proof -
  let ?pool = "allocations_pool s ! k"
  from assms(1,2) have mem: "?pool \<in> set (allocations_pool s)"
    by (simp add: engine_ok_def)
  from assms(1) have pv: "pools_valid s" by (simp add: engine_ok_def)
  from pv mem have val: "\<forall>b\<in>set ?pool. b + sizeof_MemoryHeader \<noteq> 0"
    unfolding pools_valid_def by blast
  from assms(3) have "last ?pool \<in> set ?pool" by simp
  with val have nz: "last ?pool + sizeof_MemoryHeader \<noteq> 0" by blast
  from val have "\<forall>b\<in>set (butlast ?pool). b + sizeof_MemoryHeader \<noteq> 0"
    by (blast dest: in_set_butlastD)
  with pv have "pools_valid (snd (take_block k s))"
    by (rule pools_valid_update [where k = k]) (simp add: take_block_def)
  with assms(1) have "engine_ok (snd (take_block k s))"
    by (simp add: engine_ok_def take_block_def)
  moreover have "fst (take_block k s) = Inr (last ?pool + sizeof_MemoryHeader)"
    by (simp add: take_block_def)
  moreover have "profile (snd (take_block k s)) = profile s"
    by (simp add: take_block_def)
  ultimately show ?thesis using nz
    by (intro exI [of _ "last ?pool + sizeof_MemoryHeader"]
        exI [of _ "snd (take_block k s)"]) (simp add: prod_eq_iff)
qed

lemma Allocate_loop_succeeds:
  assumes "sys_never_fails sys" and "engine_ok s"
    and "\<exists>j. k \<le> j \<and> j < length (profile s) \<and> sz \<le> size_d (profile s ! j)"
  shows "\<exists>p s'. Allocate_loop sys sz k s = (Inr p, s') \<and> p \<noteq> 0 \<and>
           profile s' = profile s \<and> engine_ok s'"
  using assms(2,3)
proof (induction "length (profile s) - k" arbitrary: k s rule: less_induct)
  case less
  note ok = less.prems(1)
  from less.prems(2) obtain j where j: "k \<le> j" "j < length (profile s)"
    "sz \<le> size_d (profile s ! j)" by blast
  then have inr: "k < length (profile s)" by simp
  show ?case
  proof (cases "size_d (profile s ! k) < sz")
    case True
    with j have "j \<noteq> k" by auto
    with j have "\<exists>j. Suc k \<le> j \<and> j < length (profile s) \<and> sz \<le> size_d (profile s ! j)"
      by (intro exI [of _ j]) simp
    moreover have "length (profile s) - Suc k < length (profile s) - k"
      using inr by simp
    ultimately have "\<exists>p s'. Allocate_loop sys sz (Suc k) s = (Inr p, s') \<and> p \<noteq> 0 \<and>
           profile s' = profile s \<and> engine_ok s'"
      using ok by (intro less.hyps)
    with inr True show ?thesis by (simp add: Allocate_loop_skip)
  next
    case big: False
    show ?thesis
    proof (cases "allocations_pool s ! k = []")
      case False
      have "Allocate_loop sys sz k s = take_block k s"
        using inr big False by (simp add: Allocate_loop_pool)
      with take_block_ok [OF ok inr False] show ?thesis by simp
    next
      case empty: True
      from ok inr have "profile s ! k \<in> set (profile s)" by simp
      with ok have ex: "excess_allowed (profile s ! k) \<or> maximum (profile s ! k) = 0"
        unfolding engine_ok_def excess_everywhere_def by blast
      from PerformAllocation_succeeds [OF assms(1) ex]
      obtain b s1 where pa: "PerformAllocation sys k s = (Inr True, s1)"
        and b: "b + sizeof_MemoryHeader \<noteq> 0" and p1: "profile s1 = profile s"
        and st1: "statistics s1 = statistics s"
        and pl1: "allocations_pool s1 = (allocations_pool s)[k := allocations_pool s ! k @ [b]]"
        by blast
      from ok inr have kl: "k < length (allocations_pool s)" by (simp add: engine_ok_def)
      with pl1 empty have pk: "allocations_pool s1 ! k = [b]" by simp
      from ok have pv: "pools_valid s" by (simp add: engine_ok_def)
      from b have "\<forall>x\<in>set [b]. x + sizeof_MemoryHeader \<noteq> 0" by simp
      with pv have "pools_valid s1"
        by (rule pools_valid_update [where k = k]) (simp add: pl1 empty)
      with ok p1 st1 pl1 have ok1: "engine_ok s1" by (simp add: engine_ok_def)
      from pk have ne: "allocations_pool s1 ! k \<noteq> []" by simp
      from inr p1 have inr1: "k < length (profile s1)" by simp
      have "Allocate_loop sys sz k s = take_block k s1"
        using inr big empty pa ne by (simp add: Allocate_loop_grown)
      with take_block_ok [OF ok1 inr1 ne] p1 show ?thesis by simp
    qed
  qed
qed

lemma Allocate_all_succeeds:
  assumes "sys_never_fails sys" and "engine_ok s"
    and "\<forall>z\<in>set zs. \<exists>j<length (profile s). z \<le> size_d (profile s ! j)"
  shows "\<forall>r\<in>set (fst (Allocate_all sys zs s)). \<exists>p. r = Inr p \<and> p \<noteq> 0"
  using assms(2,3)
proof (induction zs arbitrary: s)
  case Nil
  show ?case by simp
next
  case (Cons z zs)
  from Cons.prems(2) have "\<exists>j. 0 \<le> j \<and> j < length (profile s) \<and> z \<le> size_d (profile s ! j)"
    by auto
  from Allocate_loop_succeeds [OF assms(1) Cons.prems(1) this]
  obtain p s' where a: "Allocate sys z s = (Inr p, s')" "p \<noteq> 0"
    "profile s' = profile s" "engine_ok s'"
    unfolding Allocate_def by blast
  from Cons.prems(2) a(3)
  have "\<forall>z\<in>set zs. \<exists>j<length (profile s'). z \<le> size_d (profile s' ! j)" by simp
  from Cons.IH [OF a(4) this] a(1,2) show ?case
    by (simp add: split_beta)
qed


lemma reserve_minimum_succeeds:
  assumes "sys_never_fails sys"
    and "excess_allowed (profile s ! i) \<or> maximum (profile s ! i) = 0"
    and "pools_valid s" and "i < length (allocations_pool s)"
  shows "\<exists>s'. reserve_minimum sys i n s = (Inr (), s') \<and> profile s' = profile s \<and>
           statistics s' = statistics s \<and>
           length (allocations_pool s') = length (allocations_pool s) \<and> pools_valid s'"
  using assms(2-4)
proof (induction n arbitrary: s)
  case 0
  then show ?case by simp
next
  case (Suc n)
  from PerformAllocation_succeeds [OF assms(1) Suc.prems(1)]
  obtain b s1 where pa: "PerformAllocation sys i s = (Inr True, s1)"
    and b: "b + sizeof_MemoryHeader \<noteq> 0" and p1: "profile s1 = profile s"
    and st1: "statistics s1 = statistics s"
    and pl1: "allocations_pool s1 = (allocations_pool s)[i := allocations_pool s ! i @ [b]]"
    by blast
  from Suc.prems(3) have "allocations_pool s ! i \<in> set (allocations_pool s)" by simp
  with Suc.prems(2) b
  have "\<forall>x\<in>set (allocations_pool s ! i @ [b]). x + sizeof_MemoryHeader \<noteq> 0"
    unfolding pools_valid_def by auto
  with Suc.prems(2) have pv1: "pools_valid s1"
    by (rule pools_valid_update [where k = i]) (rule pl1)
  have ex1: "excess_allowed (profile s1 ! i) \<or> maximum (profile s1 ! i) = 0"
    using Suc.prems(1) p1 by simp
  have l1: "i < length (allocations_pool s1)" using Suc.prems(3) pl1 by simp
  from Suc.IH [OF ex1 pv1 l1] pa p1 st1 pl1 show ?case by simp
qed

lemma init_class_facts:
  assumes "k < length (profile s)"
  shows "profile (init_class k s) = (profile s)[k := repair_maximum (profile s ! k)]"
    and "allocations_pool (init_class k s) = allocations_pool s @ [[]]"
    and "length (statistics (init_class k s)) = Suc (length (statistics s))"
  using assms by (simp_all add: init_class_def repair_maximum_def Let_def)

lemma excess_repair_maximum:
  "excess_allowed d \<or> maximum d = 0 \<Longrightarrow>
   excess_allowed (repair_maximum d) \<or> maximum (repair_maximum d) = 0"
  by (auto simp add: repair_maximum_def)

lemma excess_everywhere_update:
  assumes "excess_everywhere prof" and "k < length prof"
  shows "excess_everywhere (prof[k := repair_maximum (prof ! k)])"
proof -
  have "set (prof[k := repair_maximum (prof ! k)]) \<subseteq>
          insert (repair_maximum (prof ! k)) (set prof)"
    by (rule set_update_subset_insert)
  moreover from assms have "excess_allowed (prof ! k) \<or> maximum (prof ! k) = 0"
    unfolding excess_everywhere_def by simp
  then have "excess_allowed (repair_maximum (prof ! k)) \<or>
             maximum (repair_maximum (prof ! k)) = 0"
    by (rule excess_repair_maximum)
  ultimately show ?thesis using assms(1) unfolding excess_everywhere_def by blast
qed

lemma map_size_d_update:
  "map size_d (prof[k := repair_maximum (prof ! k)]) = map size_d prof"
proof (cases "k < length prof")
  case True
  then show ?thesis
    by (simp add: map_update size_d_repair_maximum list_update_same_conv)
next
  case False
  then have "length prof \<le> k" by simp
  then show ?thesis by (simp only: list_update_beyond)
qed

lemma MemoryManager_classes_succeeds:
  assumes "sys_never_fails sys"
    and "length (allocations_pool s) = k" and "length (statistics s) = k"
    and "k \<le> length (profile s)"
    and "excess_everywhere (profile s)" and "pools_valid s"
  shows "\<exists>s'. MemoryManager_classes sys k s = (Inr (), s') \<and> engine_ok s' \<and>
           map size_d (profile s') = map size_d (profile s)"
  using assms(2-6)
proof (induction "length (profile s) - k" arbitrary: k s rule: less_induct)
  case less
  show ?case
  proof (cases "k < length (profile s)")
    case False
    with less.prems show ?thesis
      by (simp add: MemoryManager_classes.simps engine_ok_def)
  next
    case inr: True
    let ?s0 = "init_class k s"
    note ic = init_class_facts [OF inr]
    have ex0: "excess_everywhere (profile ?s0)"
      unfolding ic(1) using less.prems(4) inr by (rule excess_everywhere_update)
    have pv0: "pools_valid ?s0"
      using less.prems(5) by (simp add: pools_valid_def ic(2))
    have k0: "k < length (allocations_pool ?s0)"
      using less.prems(1) by (simp add: ic(2))
    have "profile ?s0 ! k \<in> set (profile ?s0)"
      using inr by (intro nth_mem) (simp add: ic(1))
    with ex0 have exk: "excess_allowed (profile ?s0 ! k) \<or> maximum (profile ?s0 ! k) = 0"
      unfolding excess_everywhere_def by blast
    from reserve_minimum_succeeds [OF assms(1) exk pv0 k0]
    obtain s1 where rm: "reserve_minimum sys k
          (unat (minimum (profile ?s0 ! k))) ?s0 = (Inr (), s1)"
      and p1: "profile s1 = profile ?s0" and st1: "statistics s1 = statistics ?s0"
      and l1: "length (allocations_pool s1) = length (allocations_pool ?s0)"
      and pv1: "pools_valid s1"
      by blast
    have a: "length (allocations_pool s1) = Suc k" using l1 less.prems(1) by (simp add: ic(2))
    have b: "length (statistics s1) = Suc k" using st1 less.prems(2) by (simp add: ic(3))
    have c: "Suc k \<le> length (profile s1)" using inr by (simp add: p1 ic(1))
    have d: "excess_everywhere (profile s1)" using ex0 by (simp add: p1)
    have dec: "length (profile s1) - Suc k < length (profile s) - k"
      using inr by (simp add: p1 ic(1))
    from less.hyps [OF dec a b c d pv1]
    obtain s' where rec: "MemoryManager_classes sys (Suc k) s1 = (Inr (), s')"
      and ok: "engine_ok s'" and sz: "map size_d (profile s') = map size_d (profile s1)"
      by blast
    have "MemoryManager_classes sys k s = (Inr (), s')"
      using inr rm rec by (subst MemoryManager_classes.simps) simp
    moreover have "map size_d (profile s') = map size_d (profile s)"
      using sz by (simp add: p1 ic(1) map_size_d_update)
    ultimately show ?thesis using ok by simp
  qed
qed

lemma MemoryManager_ctor_succeeds:
  assumes "std_sort_contract srt" and "sys_never_fails sys"
    and "\<forall>d\<in>set prof. excess_allowed d \<or> maximum d = 0"
  shows "\<exists>s. MemoryManager_ctor srt sys this mem prof ls = Inr s \<and> engine_ok s \<and>
           set (map size_d (profile s)) = set (map size_d prof)"
proof -
  let ?s0 = "\<lparr>profile = srt descriptor_less prof, log_statistics = ls,
              allocations_pool = [], statistics = [], this_ptr = this, memory = mem,
              heap_deleted = [], new_calls = 0, logged = [Info_Initializing]\<rparr>"
  from assms(1) have "mset (srt descriptor_less prof) = mset prof"
    by (simp add: std_sort_contract_def)
  then have se: "set (srt descriptor_less prof) = set prof" by (rule mset_eq_setD)
  with assms(3) have "excess_everywhere (profile ?s0)"
    by (simp add: excess_everywhere_def)
  moreover have "pools_valid ?s0" by (simp add: pools_valid_def)
  ultimately have "\<exists>s'. MemoryManager_classes sys 0 ?s0 = (Inr (), s') \<and> engine_ok s' \<and>
           map size_d (profile s') = map size_d (profile ?s0)"
    using assms(2) by (intro MemoryManager_classes_succeeds) simp_all
  then obtain s where c: "MemoryManager_classes sys 0 ?s0 = (Inr (), s)"
    and ok: "engine_ok s"
    and sz: "map size_d (profile s) = map size_d (srt descriptor_less prof)"
    by auto
  from sz se have "set (map size_d (profile s)) = set (map size_d prof)" by simp
  with c ok show ?thesis by (simp add: MemoryManager_ctor_def)
qed

lemma bump_allocator_never_fails: "sys_never_fails bump_allocator"
proof -
  have "\<exists>a. bump_allocator k n = Some a \<and> a \<noteq> 0 \<and> a \<le> a + sizeof_MemoryHeader" for k n
  proof -
    let ?m = "4096 * (k mod 1048576 + 1)"
    let ?a = "word_of_nat ?m :: addr"
    have lo: "4096 \<le> ?m" by simp
    have "k mod 1048576 < 1048576" by simp
    then have hi: "?m \<le> 4294967296" by simp
    then have "?m < 2 ^ LENGTH(64)" by simp
    then have u: "unat ?a = ?m" by (intro of_nat_inverse) simp_all
    have nz: "?a \<noteq> 0"
    proof
      assume "?a = 0"
      then have "unat ?a = 0" by simp
      with u lo show False by simp
    qed
    have "unat ?a + unat (24 :: addr) < 2 ^ LENGTH(64)" using hi by (simp only: u) simp
    then have "unat (?a + 24) = unat ?a + unat (24 :: addr)"
      by (rule unat_add_lem [THEN iffD1])
    then have "?a \<le> ?a + 24" by (simp add: word_le_nat_alt)
    with nz show ?thesis by (simp add: bump_allocator_def sizeof_MemoryHeader_def)
  qed
  then show ?thesis unfolding sys_never_fails_def by blast
qed

section \<open>Properties\<close>

text \<open>
  C1. When \<open>Allocate(sz)\<close> returns a pointer, there is a class \<open>i\<close> of sufficient size
  that provided the block, from its pool or by growing, and whose statistics were
  updated; every class before \<open>i\<close> is either too small and untouched, or was empty,
  failed to grow and had \<open>unfulfilled\<close> incremented by exactly one; every class after
  \<open>i\<close> is untouched. So \<open>i\<close> is the smallest index of sufficient size whose pool was
  not empty or could be grown.
\<close>

theorem Allocate_smallest_sufficient_class:
  assumes "Allocate sys sz s = (Inr p, s')" and "p \<noteq> 0"
    and "length (allocations_pool s) = length (profile s)"
    and "length (statistics s) = length (profile s)"
  shows "\<exists>i<length (profile s).
           sz \<le> size_d (profile s ! i) \<and>
           (\<forall>j<i. if size_d (profile s ! j) < sz then class_untouched j s s'
                  else class_unfulfilled sys j s s') \<and>
           (\<forall>j>i. class_untouched j s s') \<and>
           class_served sys i p s s'"
proof -
  from assms have "Allocate_loop sys sz 0 s = (Inr p, s')" by (simp add: Allocate_def)
  from Allocate_loop_served [OF this assms(2-4)] show ?thesis by auto
qed

theorem Allocate_smallest_sufficient_class_witness:
  "\<exists>i<length (profile engine3).
      32 \<le> size_d (profile engine3 ! i) \<and>
      (\<forall>j<i. if size_d (profile engine3 ! j) < 32
             then class_untouched j engine3 (snd (Allocate bump_allocator 32 engine3))
             else class_unfulfilled bump_allocator j engine3
                    (snd (Allocate bump_allocator 32 engine3))) \<and>
      (\<forall>j>i. class_untouched j engine3 (snd (Allocate bump_allocator 32 engine3))) \<and>
      class_served bump_allocator i 8216 engine3 (snd (Allocate bump_allocator 32 engine3))"
proof -
  have "Allocate bump_allocator 32 engine3 =
          (Inr 8216, snd (Allocate bump_allocator 32 engine3))"
    using Allocate_engine3 by (simp add: prod_eq_iff)
  moreover have "(8216 :: addr) \<noteq> 0" by simp
  moreover have "length (allocations_pool engine3) = length (profile engine3)"
    and "length (statistics engine3) = length (profile engine3)"
    by (simp_all add: engine3_def)
  ultimately show ?thesis by (rule Allocate_smallest_sufficient_class)
qed

text \<open>
  C2. Take a profile in which every class allows excess (\<open>excess_allowed\<close> is true or
  \<open>maximum = 0\<close>), a system allocator that never fails, and a sequence of requests each
  no greater than the size of some class, hence no greater than the largest. Then the
  constructor returns an engine, and no \<open>Allocate\<close> call of the sequence throws or
  returns the null pointer.
\<close>

theorem Allocate_never_fails:
  assumes "std_sort_contract srt" and "sys_never_fails sys"
    and "\<forall>d\<in>set prof. excess_allowed d \<or> maximum d = 0"
    and "\<forall>z\<in>set zs. \<exists>d\<in>set prof. z \<le> size_d d"
  shows "\<exists>s. MemoryManager_ctor srt sys this mem prof ls = Inr s \<and>
             (\<forall>r\<in>set (fst (Allocate_all sys zs s)). \<exists>p. r = Inr p \<and> p \<noteq> 0)"
proof -
  from MemoryManager_ctor_succeeds [OF assms(1-3)]
  obtain s where c: "MemoryManager_ctor srt sys this mem prof ls = Inr s"
    and ok: "engine_ok s"
    and sz: "set (map size_d (profile s)) = set (map size_d prof)"
    by blast
  have "\<forall>z\<in>set zs. \<exists>j<length (profile s). z \<le> size_d (profile s ! j)"
  proof
    fix z assume "z \<in> set zs"
    with assms(4) obtain d where d: "d \<in> set prof" "z \<le> size_d d" by blast
    then have "size_d d \<in> set (map size_d (profile s))" unfolding sz by simp
    then obtain j where "j < length (profile s)" "size_d (profile s ! j) = size_d d"
      by (auto simp add: in_set_conv_nth)
    with d(2) show "\<exists>j<length (profile s). z \<le> size_d (profile s ! j)" by auto
  qed
  from Allocate_all_succeeds [OF assms(2) ok this] c show ?thesis by blast
qed


theorem Allocate_never_fails_witness:
  "\<exists>s. MemoryManager_ctor insertion_sort bump_allocator 512 blank_memory
          [\<lparr>size_d = 64, minimum = 0, maximum = 0, excess_allowed = False\<rparr>] True = Inr s \<and>
       (\<forall>r\<in>set (fst (Allocate_all bump_allocator [32, 32] s)). \<exists>p. r = Inr p \<and> p \<noteq> 0)"
  by (rule Allocate_never_fails [OF insertion_sort_contract bump_allocator_never_fails])
    simp_all

text \<open>
  C3. \<open>PerformAllocation\<close> refuses to grow the pool of a class by policy exactly when
  \<open>maximum \<noteq> 0\<close>, \<open>excess_allowed\<close> is false and the 64-bit sum of the pool's size and
  \<open>outstanding\<close> is at least \<open>maximum\<close>. In particular it never refuses by policy when
  \<open>maximum = 0\<close>, whatever \<open>excess_allowed\<close> is, nor when \<open>excess_allowed\<close> is true.
\<close>

theorem PerformAllocation_gate:
  "(growth_refused sys index s \<longleftrightarrow>
      maximum (profile s ! index) \<noteq> 0 \<and> \<not> excess_allowed (profile s ! index) \<and>
      maximum (profile s ! index) \<le>
        word_of_nat (length (allocations_pool s ! index)) +
        outstanding (statistics s ! index)) \<and>
   (maximum (profile s ! index) = 0 \<longrightarrow> \<not> growth_refused sys index s) \<and>
   (excess_allowed (profile s ! index) \<longrightarrow> \<not> growth_refused sys index s)"
  by (simp add: growth_refused_def PerformAllocation_def Let_def split: option.splits)

theorem PerformAllocation_gate_witness:
  "growth_refused bump_allocator 0 engine1 \<and> \<not> growth_refused bump_allocator 0 engine2"
  using PerformAllocation_gate [of bump_allocator 0 engine1]
    PerformAllocation_gate [of bump_allocator 0 engine2]
  by (simp add: engine1_def engine2_def zero_statistics_def)

text \<open>
  C4. A \<open>Free\<close> that passes the pointer and owner checks, with the header's index in
  range and a wrong header marker or a wrong trailer marker (at payload + class size):
  \<open>deallocations\<close> of the class goes up by one, \<open>outstanding\<close> goes down by one unless it
  is 0, \<open>corruption_count\<close> goes up by one, the block is given to \<open>delete[]\<close>, no pool
  changes, and the result is \<open>true\<close>.
\<close>

theorem Free_corrupt_block:
  assumes "block = p - sizeof_MemoryHeader" and "block \<noteq> 0" and "block \<le> p"
    and "memory s block = this_ptr s"
    and "i = unat (memory s (block + 8))" and "i < length (profile s)"
    and "length (statistics s) = length (profile s)"
    and "memory s (block + 16) \<noteq> Header_Marker_Value \<or>
         memory s (block + sizeof_MemoryHeader + size_d (profile s ! i)) \<noteq>
           Trailer_Marker_Value"
  shows "fst (Free p s) = Inr True \<and>
         deallocations (statistics (snd (Free p s)) ! i) =
           deallocations (statistics s ! i) + 1 \<and>
         outstanding (statistics (snd (Free p s)) ! i) =
           (if outstanding (statistics s ! i) = 0 then 0
            else outstanding (statistics s ! i) - 1) \<and>
         corruption_count (statistics (snd (Free p s)) ! i) =
           corruption_count (statistics s ! i) + 1 \<and>
         heap_deleted (snd (Free p s)) = heap_deleted s @ [block] \<and>
         allocations_pool (snd (Free p s)) = allocations_pool s"
  using assms by (auto simp add: Free_def Let_def word_gt_0 not_less)

theorem Free_corrupt_block_witness:
  "fst (Free 4120 engine1_overrun) = Inr True \<and>
   deallocations (statistics (snd (Free 4120 engine1_overrun)) ! 0) = 1 \<and>
   outstanding (statistics (snd (Free 4120 engine1_overrun)) ! 0) = 0 \<and>
   corruption_count (statistics (snd (Free 4120 engine1_overrun)) ! 0) = 1 \<and>
   heap_deleted (snd (Free 4120 engine1_overrun)) = [4096] \<and>
   allocations_pool (snd (Free 4120 engine1_overrun)) = [[]]"
  using Free_corrupt_block [of 4096 4120 engine1_overrun 0]
  by (simp add: engine1_def engine1_overrun_def zero_statistics_def sizeof_MemoryHeader_def
      Header_Marker_Value_def Trailer_Marker_Value_def)



text \<open>Where the subtraction is defined, a block whose header names another owner is
  rejected and nothing but the log changes.\<close>

lemma Free_not_owner_unchanged:
  assumes "sizeof_MemoryHeader < p"
    and "memory s (p - sizeof_MemoryHeader) \<noteq> this_ptr s"
  shows "fst (Free p s) = Inr False \<and>
         statistics (snd (Free p s)) = statistics s \<and>
         allocations_pool (snd (Free p s)) = allocations_pool s \<and>
         profile (snd (Free p s)) = profile s \<and>
         heap_deleted (snd (Free p s)) = heap_deleted s \<and>
         memory (snd (Free p s)) = memory s"
proof -
  from assms(1) have "p - sizeof_MemoryHeader \<noteq> 0" by simp
  moreover from assms(1) have "p - sizeof_MemoryHeader \<le> p"
    by (intro word_sub_le) simp
  then have "\<not> p < p - sizeof_MemoryHeader" by simp
  ultimately show ?thesis using assms(2) by (simp add: Free_def Let_def)
qed

text \<open>
  C6. When the system allocator fails while a pool is grown, \<open>PerformAllocation\<close> should
  log the failure and return \<open>false\<close>, and no exception should leave \<open>Allocate\<close>. The
  source tests the result of \<open>new std::uint8_t[...]\<close> against \<open>nullptr\<close>, but that
  expression reports failure by throwing \<open>std::bad_alloc\<close>: on the engine built from
  \<open>{64, 0, 0, false}\<close> with an exhausted heap, \<open>Allocate(32)\<close> ends with the exception,
  nothing is logged and \<open>unfulfilled\<close> is not counted.
\<close>

theorem Allocate_bad_alloc_escapes:
  "MemoryManager_ctor insertion_sort exhausted_heap 512 blank_memory
     [\<lparr>size_d = 64, minimum = 0, maximum = 0, excess_allowed = False\<rparr>] True = Inr engine2 \<and>
   fst (Allocate exhausted_heap 32 engine2) = Inl Bad_Alloc \<and>
   statistics (snd (Allocate exhausted_heap 32 engine2)) = statistics engine2 \<and>
   logged (snd (Allocate exhausted_heap 32 engine2)) = logged engine2"
  by (simp add: MemoryManager_ctor_def MemoryManager_classes.simps insertion_sort_def
      descriptor_less_def init_class_def Allocate_def Allocate_loop.simps Let_def
      PerformAllocation_def exhausted_heap_def engine2_def zero_statistics_def)

theorem Allocate_bad_alloc_escapes_witness:
  "fst (Allocate exhausted_heap 32 engine2) = Inl Bad_Alloc \<and>
   unfulfilled (statistics (snd (Allocate exhausted_heap 32 engine2)) ! 0) = 0"
  using Allocate_bad_alloc_escapes by (simp add: engine2_def zero_statistics_def)

text \<open>Only an allocator that returns a null pointer takes the branch the source wrote
  for the failure.\<close>

lemma PerformAllocation_null_result:
  assumes "\<not> growth_refused sys index s"
    and "sys (new_calls s) (sizeof_MemoryHeader + size_d (profile s ! index) +
            sizeof_MemoryTrailer) = Some 0"
  shows "PerformAllocation sys index s =
           (Inr False, s\<lparr>new_calls := new_calls s + 1,
                         logged := logged s @ [Error_Heap_Failure]\<rparr>)"
  using assms by (auto simp add: growth_refused_def PerformAllocation_def Let_def)

text \<open>
  C7. \<open>allocate(n)\<close> of the adapter should report an overflow when \<open>n * sizeof(T)\<close> does
  not fit, and otherwise signal an out-of-memory condition when the engine fails. The
  overflow test is right (\<open>allocate_overflow_check\<close>), but the result of \<open>Allocate\<close> is
  returned as it is: on the engine built from \<open>{64, 0, 0, false}\<close>, \<open>allocate(100)\<close> for
  a 4-byte type asks for 400 bytes, \<open>Allocate\<close> returns the null pointer, and so does
  \<open>allocate\<close>, with no exception.
\<close>

theorem allocate_returns_null:
  "MemoryManager_ctor insertion_sort bump_allocator 512 blank_memory
     [\<lparr>size_d = 64, minimum = 0, maximum = 0, excess_allowed = False\<rparr>] True = Inr engine2 \<and>
   \<not> (- 1) div 4 < (100 :: size_t) \<and>
   MemoryAllocator_allocate bump_allocator 4 100 engine2 = (Inr 0, engine2)"
  by (simp add: MemoryManager_ctor_def MemoryManager_classes.simps insertion_sort_def
      descriptor_less_def init_class_def MemoryAllocator_allocate_def Allocate_def
      Allocate_loop.simps Let_def engine2_def zero_statistics_def)

theorem allocate_returns_null_witness:
  "fst (MemoryAllocator_allocate bump_allocator 4 100 engine2) = Inr 0"
  using allocate_returns_null by simp

lemma allocate_overflow_check:
  fixes sizeof_T n :: size_t
  assumes "sizeof_T \<noteq> 0"
  shows "((- 1) div sizeof_T < n) = (2 ^ 64 \<le> unat sizeof_T * unat n)"
proof -
  have pos: "0 < unat sizeof_T" using assms by (simp add: unat_gt_0)
  have "((- 1) div sizeof_T < n) = (unat ((- 1 :: size_t) div sizeof_T) < unat n)"
    by (simp add: word_less_nat_alt)
  also have "\<dots> = ((2 ^ 64 - 1) div unat sizeof_T < unat n)"
  proof -
    have "unat (- 1 :: size_t) = 2 ^ 64 - 1"
      by (simp add: unsigned_minus_1_eq_mask mask_eq_exp_minus_1)
    then show ?thesis by (simp add: unat_div)
  qed
  also have "\<dots> = (2 ^ 64 - 1 < unat n * unat sizeof_T)"
    using pos by (simp add: div_less_iff_less_mult)
  also have "\<dots> = (2 ^ 64 \<le> unat sizeof_T * unat n)"
    by (auto simp add: mult.commute)
  finally show ?thesis .
qed

text \<open>
  C8. A \<open>Free\<close> that passes the pointer and owner checks with the header's index out of
  range should release the block and return \<open>true\<close> without touching a descriptor, also
  when the table is empty. The range check of the source is guarded by
  \<open>!profile.empty()\<close>: on the engine built from the empty profile the check is skipped
  and \<open>profile[header->index]\<close> reads outside the empty vector; the block is not
  released.
\<close>

theorem Free_empty_profile_out_of_range:
  "MemoryManager_ctor insertion_sort bump_allocator 512 (blank_memory(4096 := 512)) [] True =
     Inr engine0 \<and>
   Free 4120 engine0 = (Inl Out_Of_Range, engine0)"
  by (simp add: MemoryManager_ctor_def MemoryManager_classes.simps insertion_sort_def
      Free_def Let_def engine0_def sizeof_MemoryHeader_def)

theorem Free_empty_profile_out_of_range_witness:
  "fst (Free 4120 engine0) = Inl Out_Of_Range \<and>
   heap_deleted (snd (Free 4120 engine0)) = []"
  using Free_empty_profile_out_of_range by (simp add: engine0_def)

text \<open>On a table that is not empty the check does what the claim says.\<close>

lemma Free_bad_index_nonempty:
  assumes "block = p - sizeof_MemoryHeader" and "block \<noteq> 0" and "block \<le> p"
    and "memory s block = this_ptr s"
    and "profile s \<noteq> []" and "\<not> unat (memory s (block + 8)) < length (profile s)"
  shows "Free p s = (Inr True, s\<lparr>logged := logged s @ [Error_Bad_Descriptor],
                                 heap_deleted := heap_deleted s @ [block]\<rparr>)"
proof -
  from assms(5) have "0 < length (profile s)" by simp
  with assms(6) have "length (profile s) - 1 < unat (memory s (block + 8))" by arith
  with assms show ?thesis by (simp add: Free_def Let_def not_less)
qed

text \<open>
  C9 (as amended). Provided the call of \<open>std::sort\<close> keeps its promise (the result is a
  permutation of the input in which no element is less than an element before it), the
  class table after construction is sorted by size in non-decreasing order and holds
  exactly the descriptors of the input, each with its \<open>maximum\<close> repaired: descriptors of
  the same size stay separate classes. \<open>Allocate\<close>, \<open>Free\<close> and \<open>PerformAllocation\<close> never
  change the table. Nothing is said about the order of descriptors of the same size.
\<close>

theorem class_table_sorted:
  assumes "mset (srt descriptor_less prof) = mset prof"
    and "sorted_wrt (\<lambda>a b. \<not> descriptor_less b a) (srt descriptor_less prof)"
    and "MemoryManager_ctor srt sys this mem prof ls = Inr s"
  shows "sorted (map size_d (profile s)) \<and>
         mset (profile s) = image_mset repair_maximum (mset prof) \<and>
         length (profile s) = length prof \<and>
         profile (snd (Allocate sys' sz t)) = profile t \<and>
         profile (snd (Free p t)) = profile t \<and>
         profile (snd (PerformAllocation sys' index t)) = profile t"
proof -
  let ?xs = "srt descriptor_less prof"
  from assms(2) have so: "sorted (map size_d ?xs)"
    by (simp add: sorted_wrt_descriptor)
  have p: "profile s = map repair_maximum ?xs"
    using assms(3) by (rule profile_MemoryManager_ctor)
  have "map size_d (profile s) = map size_d ?xs"
    by (simp add: p size_d_repair_maximum comp_def)
  with so have 1: "sorted (map size_d (profile s))" by simp
  have 2: "mset (profile s) = image_mset repair_maximum (mset prof)"
    by (simp add: p assms(1) [symmetric])
  from 2 have 3: "length (profile s) = length prof"
    by (metis size_mset size_image_mset)
  show ?thesis
    using 1 2 3 by (simp add: Allocate_def profile_Allocate_loop profile_Free
        profile_PerformAllocation)
qed

theorem class_table_sorted_witness:
  "sorted (map size_d (profile four_classes_engine)) \<and>
   mset (profile four_classes_engine) = image_mset repair_maximum (mset four_classes) \<and>
   length (profile four_classes_engine) = length four_classes \<and>
   profile (snd (Allocate bump_allocator 32 four_classes_engine)) =
     profile four_classes_engine \<and>
   profile (snd (Free 4120 four_classes_engine)) = profile four_classes_engine \<and>
   profile (snd (PerformAllocation bump_allocator 0 four_classes_engine)) =
     profile four_classes_engine"
proof -
  from ctor_four_classes obtain s
    where c: "MemoryManager_ctor (libstdcxx_sort (sort_range descriptor_less))
                bump_allocator 512 blank_memory four_classes True = Inr s"
    by blast
  then have e: "four_classes_engine = s" by (simp add: four_classes_engine_def)
  have h1: "mset (libstdcxx_sort (sort_range descriptor_less) descriptor_less four_classes) =
            mset four_classes"
    by (simp only: sort_four_classes) (simp add: four_classes_def)
  have h2: "sorted_wrt (\<lambda>a b. \<not> descriptor_less b a)
              (libstdcxx_sort (sort_range descriptor_less) descriptor_less four_classes)"
    by (simp add: sort_four_classes descriptor_less_def)
  show ?thesis
    unfolding e
    by (rule class_table_sorted [OF h1 h2 c])
qed

text \<open>
  C9 as stated fails: \<open>std::sort\<close> does not keep descriptors of the same size in their
  input order. From the seventeen classes of size 64, in the order of their \<open>maximum\<close>
  1, ..., 17, the constructor with the library's sort builds the table in the order
  9, 17, 16, ..., 10, 1, 8, 7, ..., 2.
\<close>

theorem class_table_ties_counterexample:
  "map_sum id profile
     (MemoryManager_ctor (libstdcxx_sort (sort_range descriptor_less)) bump_allocator
        512 blank_memory seventeen_classes True) =
     Inr (map same_size_class [9, 17, 16, 15, 14, 13, 12, 11, 10, 1, 8, 7, 6, 5, 4, 3, 2]) \<and>
   map same_size_class [9, 17, 16, 15, 14, 13, 12, 11, 10, 1, 8, 7, 6, 5, 4, 3, 2] \<noteq>
     seventeen_classes"
  unfolding MemoryManager_ctor_def sort17
  by (simp add: MemoryManager_classes.simps init_class_def Let_def same_size_class_def
      seventeen_classes_def)

text \<open>
  C10. There is no detection of a double free. If a block with intact header and
  trailer sits in the pool of its class \<open>i\<close> and \<open>Free\<close> is called on its payload
  pointer \<open>p\<close>, the result is \<open>true\<close> and \<open>deallocations\<close> of the class goes up again; and
  when \<open>maximum = 0\<close> or the pool is below \<open>maximum\<close>, the block is pushed a second time,
  so the pool holds it twice, and of the following \<open>Allocate\<close> calls served by class
  \<open>i\<close> the first and a later one return the same pointer \<open>p\<close>.
\<close>

theorem Free_twice_accepted:
  assumes "i < length (profile s)"
    and "length (allocations_pool s) = length (profile s)"
    and "length (statistics s) = length (profile s)"
    and "allocations_pool s ! i = xs @ block # ys"
    and "p = block + sizeof_MemoryHeader" and "block \<noteq> 0" and "block \<le> p"
    and "memory s block = this_ptr s" and "unat (memory s (block + 8)) = i"
    and "memory s (block + 16) = Header_Marker_Value"
    and "memory s (block + sizeof_MemoryHeader + size_d (profile s ! i)) =
           Trailer_Marker_Value"
  shows "fst (Free p s) = Inr True \<and>
         deallocations (statistics (snd (Free p s)) ! i) =
           deallocations (statistics s ! i) + 1 \<and>
         (maximum (profile s ! i) = 0 \<or>
          length (allocations_pool s ! i) < unat (maximum (profile s ! i)) \<longrightarrow>
            allocations_pool (snd (Free p s)) ! i = xs @ block # ys @ [block] \<and>
            ((\<forall>j<i. size_d (profile s ! j) < sz) \<and> sz \<le> size_d (profile s ! i) \<longrightarrow>
               fst (Allocate_all sys (replicate (Suc (Suc (length ys))) sz) (snd (Free p s))) =
                 Inr p # map (\<lambda>b. Inr (b + sizeof_MemoryHeader)) (rev ys) @ [Inr p]))"
proof -
  have blk: "block = p - sizeof_MemoryHeader" using assms(5) by simp
  note fr = Free_intact [OF blk assms(6,7,8,9,1,10,11)]
  have 1: "fst (Free p s) = Inr True" by (simp add: fr)
  have 2: "deallocations (statistics (snd (Free p s)) ! i) =
           deallocations (statistics s ! i) + 1"
    using assms(1,3) by (simp add: fr deallocations_freed_statistics)
  have 3: "allocations_pool (snd (Free p s)) ! i = xs @ block # ys @ [block] \<and>
        ((\<forall>j<i. size_d (profile s ! j) < sz) \<and> sz \<le> size_d (profile s ! i) \<longrightarrow>
               fst (Allocate_all sys (replicate (Suc (Suc (length ys))) sz) (snd (Free p s))) =
                 Inr p # map (\<lambda>b. Inr (b + sizeof_MemoryHeader)) (rev ys) @ [Inr p])"
    if push: "maximum (profile s ! i) = 0 \<or>
          length (allocations_pool s ! i) < unat (maximum (profile s ! i))"
  proof -
    let ?s' = "snd (Free p s)"
    have pool: "allocations_pool ?s' ! i = xs @ block # ys @ [block]"
      using assms(1,2,4) push by (simp add: fr)
    have prof: "profile ?s' = profile s" by (rule profile_Free)
    have len: "length (allocations_pool ?s') = length (allocations_pool s)"
      by (simp add: fr)
    have "fst (Allocate_all sys (replicate (Suc (Suc (length ys))) sz) ?s') =
            Inr p # map (\<lambda>b. Inr (b + sizeof_MemoryHeader)) (rev ys) @ [Inr p]"
      if sel: "(\<forall>j<i. size_d (profile s ! j) < sz) \<and> sz \<le> size_d (profile s ! i)"
    proof -
      have "fst (Allocate_all sys (replicate (length (block # ys @ [block])) sz) ?s') =
           map (\<lambda>b. Inr (b + sizeof_MemoryHeader)) (rev (block # ys @ [block]))"
        using assms(1,2) sel prof len pool
        by (intro Allocate_all_pops [where xs = xs]) simp_all
      then show ?thesis using assms(5) by simp
    qed
    with pool show ?thesis by blast
  qed
  from 1 2 3 show ?thesis by blast
qed

theorem Free_twice_accepted_witness:
  "fst (Free 4120 engine4) = Inr True \<and>
   deallocations (statistics (snd (Free 4120 engine4)) ! 0) = 1 \<and>
   allocations_pool (snd (Free 4120 engine4)) ! 0 = [4096, 4096] \<and>
   fst (Allocate_all bump_allocator [32, 32] (snd (Free 4120 engine4))) =
     [Inr 4120, Inr 4120]"
  using Free_twice_accepted [of 0 engine4 "[]" 4096 "[]" 4120 32 bump_allocator]
  by (simp add: engine4_def engine1_def zero_statistics_def sizeof_MemoryHeader_def)

end
